theory Spec2Isabelle
  imports Main "HOL-Library.Sublist"
begin

section \<open>Strings\<close>

text \<open>
  A JavaScript string is a sequence of UTF-16 code units. Here it is a HOL \<open>string\<close>:
  one \<open>char\<close> stands for one code unit, the code unit of the same number, so that
  \<open>length\<close> is JavaScript's \<open>.length\<close>. HOL's \<open>char\<close> has eight bits, so the model
  covers the strings whose code units are below 256. The one character that the source
  writes outside that range is the bullet U+2022 of the list pass. It is the constant
  \<open>bullet\<close>: one \<open>char\<close>, as the bullet is one code unit, with a code that no
  function of the model treats in a way of its own.

  Case conversion is that of JavaScript on these code units: the ASCII letters and
  the letters from 0xC0 to 0xFE (the signs 0xD7 and 0xF7 are no letters). The capital
  of 0xDF, the sharp s, is the two letters \<open>SS\<close>. Two small letters below 256 have
  their capital above 255, the micro sign 0xB5 and the y with diaeresis 0xFF: a string
  that the code capitalises at one of them is outside the model, which leaves the two
  as they are.
\<close>

definition bullet :: char where
  "bullet = CHR 0x95"

definition isWhiteSpace :: "char \<Rightarrow> bool" where
  \<comment> \<open>what \<open>String.prototype.trim\<close> strips and \<open>\s\<close> matches, below 256:
      TAB, LF, VT, FF, CR, SPACE, NBSP\<close>
  "isWhiteSpace c \<longleftrightarrow>
     c \<in> set [CHR 0x09, CHR 0x0A, CHR 0x0B, CHR 0x0C, CHR 0x0D, CHR 0x20, CHR 0xA0]"

definition trimStart :: "string \<Rightarrow> string" where
  "trimStart s = dropWhile isWhiteSpace s"

definition trimEnd :: "string \<Rightarrow> string" where
  "trimEnd s = rev (dropWhile isWhiteSpace (rev s))"

definition trim :: "string \<Rightarrow> string" where
  "trim s = trimEnd (trimStart s)"

definition capitalLetters :: string where
  "capitalLetters =
     ''ABCDEFGHIJKLMNOPQRSTUVWXYZ''
     @ [CHR 0xC0, CHR 0xC1, CHR 0xC2, CHR 0xC3, CHR 0xC4, CHR 0xC5, CHR 0xC6, CHR 0xC7,
        CHR 0xC8, CHR 0xC9, CHR 0xCA, CHR 0xCB, CHR 0xCC, CHR 0xCD, CHR 0xCE, CHR 0xCF,
        CHR 0xD0, CHR 0xD1, CHR 0xD2, CHR 0xD3, CHR 0xD4, CHR 0xD5, CHR 0xD6, CHR 0xD8,
        CHR 0xD9, CHR 0xDA, CHR 0xDB, CHR 0xDC, CHR 0xDD, CHR 0xDE]"

definition smallLetters :: string where
  "smallLetters =
     ''abcdefghijklmnopqrstuvwxyz''
     @ [CHR 0xE0, CHR 0xE1, CHR 0xE2, CHR 0xE3, CHR 0xE4, CHR 0xE5, CHR 0xE6, CHR 0xE7,
        CHR 0xE8, CHR 0xE9, CHR 0xEA, CHR 0xEB, CHR 0xEC, CHR 0xED, CHR 0xEE, CHR 0xEF,
        CHR 0xF0, CHR 0xF1, CHR 0xF2, CHR 0xF3, CHR 0xF4, CHR 0xF5, CHR 0xF6, CHR 0xF8,
        CHR 0xF9, CHR 0xFA, CHR 0xFB, CHR 0xFC, CHR 0xFD, CHR 0xFE]"

definition toLowerChar :: "char \<Rightarrow> char" where
  "toLowerChar c =
     (case map_of (zip capitalLetters smallLetters) c of
        Some d \<Rightarrow> d
      | None \<Rightarrow> c)"

definition toUpperChar :: "char \<Rightarrow> char" where
  "toUpperChar c =
     (case map_of (zip smallLetters capitalLetters) c of
        Some d \<Rightarrow> d
      | None \<Rightarrow> c)"

definition toLowerCase :: "string \<Rightarrow> string" where
  "toLowerCase s = map toLowerChar s"

definition toUpperCase :: "string \<Rightarrow> string" where
  \<comment> \<open>the one code unit below 256 that becomes two is the sharp s\<close>
  "toUpperCase s = concat (map (\<lambda>c. if c = CHR 0xDF then ''SS'' else [toUpperChar c]) s)"

definition startsWith :: "string \<Rightarrow> string \<Rightarrow> bool" where
  \<comment> \<open>\<open>s.startsWith(p)\<close>\<close>
  "startsWith s p \<longleftrightarrow> prefix p s"

definition endsWith :: "string \<Rightarrow> string \<Rightarrow> bool" where
  \<comment> \<open>\<open>s.endsWith(p)\<close>\<close>
  "endsWith s p \<longleftrightarrow> suffix p s"

fun includesStr :: "string \<Rightarrow> string \<Rightarrow> bool" where
  \<comment> \<open>\<open>s.includes(p)\<close>: \<open>p\<close> occurs in \<open>s\<close>\<close>
  "includesStr [] p = (p = [])"
| "includesStr (c # cs) p = (prefix p (c # cs) \<or> includesStr cs p)"

fun join :: "'a list \<Rightarrow> 'a list list \<Rightarrow> 'a list" where
  \<comment> \<open>\<open>xs.join(sep)\<close>\<close>
  "join sep [] = []"
| "join sep [x] = x"
| "join sep (x # y # ys) = x @ sep @ join sep (y # ys)"

section \<open>The DOM\<close>

text \<open>
  A DOM subtree is a tree of text nodes, comments and elements. An element holds its
  local name (what \<open>tagName.toLowerCase()\<close> and a CSS type selector compare), its
  attributes in order, each a name and a value, and its child nodes. The elements are
  HTML elements.

  A \<open>template\<close> element, as the parser builds it, is a node of a kind of its own. It
  has its attributes and no child nodes: what the markup holds between its tags
  becomes the children of its content fragment \<open>template.content\<close>. The fragment is a
  tree apart. The element's \<open>childNodes\<close> and \<open>textContent\<close> do not show it, no
  \<open>querySelectorAll\<close> from above enters it, and it goes where the element goes.

  The parser gives an element no two attributes of one name (\<open>wfNode\<close>), and writes
  their names in lower case. \<open>getAttribute\<close> and \<open>removeAttribute\<close> act on the first
  attribute of the name they are given.
\<close>

type_synonym attrs = "(string \<times> string) list"

datatype node =
    Text string
  | Comment string
  | Element string attrs "node list"
  | Template attrs "node list"

fun textContent :: "node \<Rightarrow> string" where
  \<comment> \<open>\<open>node.textContent\<close> of an element: the data of its descendant text nodes, in
      document order; a comment gives nothing to the \<open>textContent\<close> of an ancestor\<close>
  "textContent (Text s) = s"
| "textContent (Comment s) = []"
| "textContent (Element t a cs) = concat (map textContent cs)"
| "textContent (Template a fragment) = []"

fun isElement :: "node \<Rightarrow> bool" where
  "isElement (Element t a cs) = True"
| "isElement (Template a fragment) = True"
| "isElement n = False"

fun hasTag :: "string list \<Rightarrow> node \<Rightarrow> bool" where
  \<comment> \<open>the node is matched by the selector list \<open>t1, t2, ...\<close> of type selectors\<close>
  "hasTag ts (Element t a cs) = (t \<in> set ts)"
| "hasTag ts (Template a fragment) = (''template'' \<in> set ts)"
| "hasTag ts n = False"

fun childNodes :: "node \<Rightarrow> node list" where
  "childNodes (Element t a cs) = cs"
| "childNodes n = []"

fun ownAttributes :: "node \<Rightarrow> attrs" where
  \<comment> \<open>the attributes that the element has\<close>
  "ownAttributes (Element t a cs) = a"
| "ownAttributes (Template a fragment) = a"
| "ownAttributes n = []"

fun wfNode :: "node \<Rightarrow> bool" where
  "wfNode (Element t a cs) = (distinct (map fst a) \<and> list_all wfNode cs)"
| "wfNode (Template a fragment) = (distinct (map fst a) \<and> list_all wfNode fragment)"
| "wfNode n = True"

definition getAttribute :: "string \<Rightarrow> attrs \<Rightarrow> string option" where
  "getAttribute n as = map_of as n"

fun removeAttribute :: "string \<Rightarrow> attrs \<Rightarrow> attrs" where
  "removeAttribute n [] = []"
| "removeAttribute n ((k, v) # as) = (if k = n then as else (k, v) # removeAttribute n as)"

fun querySelectorAll :: "string list \<Rightarrow> node \<Rightarrow> node list" where
  \<comment> \<open>\<open>e.querySelectorAll('t1, t2, ...')\<close>: the descendant elements of \<open>e\<close> with one
      of the tags, in document order (never \<open>e\<close> itself)\<close>
  "querySelectorAll ts (Element t a cs) =
     concat (map (\<lambda>c. (if hasTag ts c then [c] else []) @ querySelectorAll ts c) cs)"
| "querySelectorAll ts n = []"

fun replaceEach :: "(node \<Rightarrow> bool) \<Rightarrow> (node \<Rightarrow> node) \<Rightarrow> node \<Rightarrow> node" where
  \<comment> \<open>\<open>root.querySelectorAll(sel).forEach(e => e.replaceWith(f(e)))\<close>, seen from the
      root: the node list is in document order, so an element is visited before its
      descendants and with its subtree as it was; once it is replaced, the replacements
      of its descendants happen in the detached subtree and the root does not see them\<close>
  "replaceEach p f (Element t a cs) =
     (if p (Element t a cs) then f (Element t a cs)
      else Element t a (map (replaceEach p f) cs))"
| "replaceEach p f (Template a fragment) =
     (if p (Template a fragment) then f (Template a fragment) else Template a fragment)"
| "replaceEach p f n = n"

subsection \<open>The named properties of a form\<close>

text \<open>
  A \<open>form\<close> element shows the controls that it owns as properties under their names,
  and such a property hides the property of that name which every element has: on a
  form with a control named \<open>attributes\<close>, \<open>form.attributes\<close> is the control and not
  the list of the form's attributes. The controls of a name are the listed elements
  (an \<open>input\<close> of type \<open>image\<close> aside) that have the name as their \<open>id\<close> or their
  \<open>name\<close> and, when there is none, the \<open>img\<close> elements that have it. The property is
  the control when there is one, and the list of the controls in document order when
  there are more. The form that owns a control is taken to be the form in which the
  control stands: that is the owner which the parser gives to a control written
  between the tags of the form with no \<open>form\<close> attribute of its own.

  The model follows the named properties in the sanitizer, which reads \<open>attributes\<close>,
  \<open>getAttribute\<close> and \<open>removeAttribute\<close> of every element of the document. A form
  with a control named like a property that the flattener or the Markdown renderer
  reads of the elements they pass (\<open>textContent\<close>, \<open>tagName\<close>, \<open>nodeType\<close>,
  \<open>childNodes\<close>, \<open>parentElement\<close>) is outside the model.
\<close>

fun descendantElements :: "node \<Rightarrow> node list" where
  \<comment> \<open>the elements below a node, in document order\<close>
  "descendantElements (Element t a cs) =
     concat (map (\<lambda>c. (if isElement c then [c] else []) @ descendantElements c) cs)"
| "descendantElements n = []"

definition listedElements :: "string list" where
  "listedElements = [''button'', ''fieldset'', ''input'', ''object'', ''output'', ''select'',
                     ''textarea'']"

definition isListed :: "node \<Rightarrow> bool" where
  "isListed e \<longleftrightarrow>
     hasTag listedElements e
     \<and> \<not> (hasTag [''input''] e
          \<and> map_option toLowerCase (getAttribute ''type'' (ownAttributes e)) = Some ''image'')"

definition hasName :: "string \<Rightarrow> node \<Rightarrow> bool" where
  "hasName name e \<longleftrightarrow>
     getAttribute ''id'' (ownAttributes e) = Some name
     \<or> getAttribute ''name'' (ownAttributes e) = Some name"

definition namedProperty :: "node \<Rightarrow> string \<Rightarrow> node list" where
  \<comment> \<open>the controls that \<open>element[name]\<close> finds in place of the element's own property;
      none for an element that is no form\<close>
  "namedProperty element name =
     (if hasTag [''form''] element then
        (let controls = filter (\<lambda>e. isListed e \<and> hasName name e) (descendantElements element)
         in if controls \<noteq> [] then controls
            else filter (\<lambda>e. hasTag [''img''] e \<and> hasName name e) (descendantElements element))
      else [])"

definition nameProperty :: "node \<Rightarrow> string" where
  \<comment> \<open>\<open>control.name\<close>: the \<open>name\<close> attribute, or the empty string\<close>
  "nameProperty e = (case getAttribute ''name'' (ownAttributes e) of None \<Rightarrow> [] | Some v \<Rightarrow> v)"

section \<open>The sanitizer\<close>

text \<open>
  \<open>sanitizeDocument\<close> finds the elements that it cleans with \<open>doc.querySelectorAll\<close>,
  so it does not see what is inside the content of a \<open>template\<close>. It reads the
  attributes of an element as \<open>element.attributes\<close> and calls \<open>element.getAttribute\<close>
  and \<open>element.removeAttribute\<close>: on a form these three are the controls of that name,
  where the form has such controls. A control in the place of a method makes the call
  a TypeError, which ends the pass (\<open>None\<close>).
\<close>

fun removeElements :: "string \<Rightarrow> node \<Rightarrow> node" where
  \<comment> \<open>\<open>querySelectorAll(tag).forEach(e => e.remove())\<close> below one node\<close>
  "removeElements tag (Element t a cs) =
     Element t a (map (removeElements tag) (filter (\<lambda>c. \<not> hasTag [tag] c) cs))"
| "removeElements tag n = n"

definition removeAll :: "string \<Rightarrow> node list \<Rightarrow> node list" where
  \<comment> \<open>the same on a document, given as the list of the document node's children\<close>
  "removeAll tag doc = map (removeElements tag) (filter (\<lambda>c. \<not> hasTag [tag] c) doc)"

definition isEventHandler :: "string \<Rightarrow> bool" where
  "isEventHandler name \<longleftrightarrow> startsWith (toLowerCase name) ''on''"

definition removeAttributeOf :: "node \<Rightarrow> string \<Rightarrow> attrs \<Rightarrow> attrs option" where
  \<comment> \<open>\<open>element.removeAttribute(n)\<close>, where \<open>as\<close> are the attributes that the element
      has by now\<close>
  "removeAttributeOf element n as =
     (if namedProperty element ''removeAttribute'' = [] then Some (removeAttribute n as)
      else None)"

fun removeEventHandlers :: "node \<Rightarrow> nat \<Rightarrow> attrs \<Rightarrow> attrs option" where
  \<comment> \<open>the loop \<open>for (i = attributes.length - 1; i >= 0; i--)\<close> over the element's own
      attributes, its counter kept as \<open>i + 1\<close>; \<open>None\<close> is also the TypeError of reading
      \<open>.name\<close> of \<open>attributes[i]\<close> when \<open>i\<close> is out of range\<close>
  "removeEventHandlers element 0 as = Some as"
| "removeEventHandlers element (Suc i) as =
     (if i < length as then
        (let name = fst (as ! i) in
         if isEventHandler name then
           (case removeAttributeOf element name as of
              None \<Rightarrow> None
            | Some as' \<Rightarrow> removeEventHandlers element i as')
         else removeEventHandlers element i as)
      else None)"

fun removeNamedHandlers :: "node \<Rightarrow> node list \<Rightarrow> attrs \<Rightarrow> attrs option" where
  \<comment> \<open>the same loop where \<open>element.attributes\<close> is a list of controls: \<open>attr\<close> is a
      control and \<open>attr.name\<close> its name; the second argument holds the controls still to
      visit, the last of the list first. \<open>removeAttribute\<close> lower-cases the name it is
      given, which the parser has done to the names of the own attributes.\<close>
  "removeNamedHandlers element [] as = Some as"
| "removeNamedHandlers element (attr # controls) as =
     (let name = nameProperty attr in
      if isEventHandler name then
        (case removeAttributeOf element (toLowerCase name) as of
           None \<Rightarrow> None
         | Some as' \<Rightarrow> removeNamedHandlers element controls as')
      else removeNamedHandlers element controls as)"

definition removeEventAttributes :: "node \<Rightarrow> attrs option" where
  \<comment> \<open>the loop of the source, by what \<open>element.attributes\<close> is. A control has no
      \<open>length\<close>, so the bound is \<open>NaN\<close> and the loop does not run; a \<open>select\<close> has the
      number of its options as its length and the options as its entries, and an
      option has no \<open>name\<close>: reading \<open>attr.name.toLowerCase\<close> is a TypeError.\<close>
  "removeEventAttributes element =
     (let as = ownAttributes element in
      case namedProperty element ''attributes'' of
        [] \<Rightarrow> removeEventHandlers element (length as) as
      | [control] \<Rightarrow>
          if hasTag [''select''] control \<and> querySelectorAll [''option''] control \<noteq> []
          then None else Some as
      | controls \<Rightarrow> removeNamedHandlers element (rev controls) as)"

definition dangerousAttrs :: "string list" where
  "dangerousAttrs = [''javascript:'', ''data:'', ''vbscript:'', ''file:'']"

definition urlAttrs :: "string list" where
  "urlAttrs = [''href'', ''src'', ''action'', ''formaction'', ''data'']"

definition removeDangerous :: "node \<Rightarrow> attrs \<Rightarrow> string \<Rightarrow> attrs option" where
  \<comment> \<open>the body of the \<open>forEach(attrName => ...)\<close> over \<open>urlAttrs\<close>\<close>
  "removeDangerous element as attrName =
     (if namedProperty element ''getAttribute'' \<noteq> [] then None
      else
        (case getAttribute attrName as of
           None \<Rightarrow> Some as
         | Some attrValue \<Rightarrow>
             if attrValue \<noteq> [] then
               (let lowerValue = trim (toLowerCase attrValue) in
                if list_ex (\<lambda>dangerous. startsWith lowerValue dangerous) dangerousAttrs
                then removeAttributeOf element attrName as else Some as)
             else Some as))"

fun removeDangerousAttributes :: "node \<Rightarrow> string list \<Rightarrow> attrs \<Rightarrow> attrs option" where
  \<comment> \<open>the \<open>forEach\<close> over the names still to come\<close>
  "removeDangerousAttributes element [] as = Some as"
| "removeDangerousAttributes element (attrName # attrNames) as =
     (case removeDangerous element as attrName of
        None \<Rightarrow> None
      | Some as' \<Rightarrow> removeDangerousAttributes element attrNames as')"

definition sanitizeAttributes :: "node \<Rightarrow> attrs option" where
  \<comment> \<open>the body of \<open>allElements.forEach(element => ...)\<close>: the attributes that it
      leaves to the element\<close>
  "sanitizeAttributes element =
     (case removeEventAttributes element of
        None \<Rightarrow> None
      | Some as \<Rightarrow> removeDangerousAttributes element urlAttrs as)"

fun sanitizeElements :: "node \<Rightarrow> node option" where
  \<comment> \<open>\<open>querySelectorAll('*').forEach(...)\<close> on one node and below it: an element is
      visited before the elements inside it, and an exception in one element ends the
      whole pass\<close>
  "sanitizeElements (Element t a cs) =
     (case sanitizeAttributes (Element t a cs) of
        None \<Rightarrow> None
      | Some a' \<Rightarrow>
          (case those (map sanitizeElements cs) of
             None \<Rightarrow> None
           | Some cs' \<Rightarrow> Some (Element t a' cs')))"
| "sanitizeElements (Template a fragment) =
     (case sanitizeAttributes (Template a fragment) of
        None \<Rightarrow> None
      | Some a' \<Rightarrow> Some (Template a' fragment))"
| "sanitizeElements n = Some n"

definition sanitizeDocument :: "node list \<Rightarrow> node list option" where
  "sanitizeDocument doc =
     those (map sanitizeElements (removeAll ''style'' (removeAll ''script'' doc)))"

section \<open>The fallback tag stripper\<close>

text \<open>
  \<open>str.replace(re, rep)\<close> with a global regular expression that matches no empty
  string: scan from the left; where the expression matches, write \<open>rep\<close> and go on
  behind the match; elsewhere keep the character. A regular expression is given as
  the function that tells, for a rest of the string, how long the match at its start
  is. The third argument counts the characters of the current match still to skip.
\<close>

fun replaceFrom :: "(string \<Rightarrow> nat option) \<Rightarrow> string \<Rightarrow> nat \<Rightarrow> string \<Rightarrow> string" where
  "replaceFrom re rep k [] = []"
| "replaceFrom re rep (Suc k) (c # cs) = replaceFrom re rep k cs"
| "replaceFrom re rep 0 (c # cs) =
     (case re (c # cs) of
        Some (Suc n) \<Rightarrow> rep @ replaceFrom re rep n cs
      | _ \<Rightarrow> c # replaceFrom re rep 0 cs)"

definition replaceAll :: "(string \<Rightarrow> nat option) \<Rightarrow> string \<Rightarrow> string \<Rightarrow> string" where
  "replaceAll re rep s = replaceFrom re rep 0 s"

definition isWordChar :: "char \<Rightarrow> bool" where
  \<comment> \<open>\<open>\w\<close>\<close>
  "isWordChar c \<longleftrightarrow>
     c \<in> set ''ABCDEFGHIJKLMNOPQRSTUVWXYZabcdefghijklmnopqrstuvwxyz0123456789_''"

fun closeAt :: "string \<Rightarrow> string \<Rightarrow> nat option" where
  \<comment> \<open>the number of characters up to the end of the first occurrence of \<open>close\<close>,
      letter case ignored\<close>
  "closeAt close [] = None"
| "closeAt close (c # cs) =
     (if prefix close (toLowerCase (c # cs)) then Some (length close)
      else map_option Suc (closeAt close cs))"

definition reBlock :: "string \<Rightarrow> string \<Rightarrow> nat option" where
  \<comment> \<open>\<open>/<tag\b[^<]*(?:(?!<\/tag>)<[^<]*)*<\/tag>/i\<close>: \<open><tag\<close>, a word boundary, then
      everything up to the end of the first \<open></tag>\<close>. Both \<open>[^<]*\<close> are greedy and
      stop only at a \<open><\<close>, each round of the group starts at a \<open><\<close> that does not
      open \<open></tag>\<close>, and giving characters back never helps, since whatever follows
      must start with \<open><\<close>: so the match ends at the first \<open></tag>\<close>, and there is
      none when no \<open></tag>\<close> follows.\<close>
  "reBlock tag s =
     (let open = CHR ''<'' # tag; rest = drop (length open) s in
      if prefix open (toLowerCase s) \<and> (rest = [] \<or> \<not> isWordChar (hd rest)) then
        map_option (\<lambda>n. length open + n) (closeAt (''</'' @ tag @ ''>'') rest)
      else None)"

definition reTag :: "string \<Rightarrow> nat option" where
  \<comment> \<open>\<open>/<[^>]*>/\<close>\<close>
  "reTag s =
     (case s of
        [] \<Rightarrow> None
      | c # cs \<Rightarrow>
          if c = CHR ''<'' \<and> CHR ''>'' \<in> set cs
          then Some (length (takeWhile (\<lambda>x. x \<noteq> CHR ''>'') cs) + 2) else None)"

definition reLiteral :: "string \<Rightarrow> string \<Rightarrow> nat option" where
  "reLiteral lit s = (if prefix lit s then Some (length lit) else None)"

definition reSpaces :: "string \<Rightarrow> nat option" where
  \<comment> \<open>\<open>/\s+/\<close>\<close>
  "reSpaces s =
     (let n = length (takeWhile isWhiteSpace s) in if n = 0 then None else Some n)"

definition stripHtmlTags :: "string \<Rightarrow> string" where
  "stripHtmlTags html =
     (if html = [] then []
      else
        trim (replaceAll reSpaces '' ''
          (replaceAll (reLiteral ''&#39;'') [CHR 0x27]
          (replaceAll (reLiteral ''&quot;'') [CHR 0x22]
          (replaceAll (reLiteral ''&gt;'') ''>''
          (replaceAll (reLiteral ''&lt;'') ''<''
          (replaceAll (reLiteral ''&amp;'') ''&''
          (replaceAll (reLiteral ''&nbsp;'') '' ''
          (replaceAll reTag []
          (replaceAll (reBlock ''style'') []
          (replaceAll (reBlock ''script'') [] html)))))))))))"

section \<open>The platform\<close>

text \<open>
  What the code asks of the browser and the JavaScript engine is a parameter of the
  model: whether the global \<open>document\<close> exists, \<open>DOMParser.parseFromString(s,
  'text/html')\<close> (the children of the parsed document node, an \<open>html\<close> element with
  its \<open>head\<close> and \<open>body\<close>; \<open>None\<close> when the call throws), the \<open>innerHTML\<close> getter,
  \<open>new URL(s)\<close> (\<open>None\<close> when it throws) with the two fields the code reads, and the
  string that a property inherited from \<open>Object.prototype\<close> shows in a template
  literal (\<open>None\<close> for a key that \<open>{}\<close> does not inherit).
\<close>

record URL =
  protocol :: string
  hostname :: string

record env =
  hasDocument :: bool
  parseFromString :: "string \<Rightarrow> node list option"
  innerHTML :: "node \<Rightarrow> string"
  newURL :: "string \<Rightarrow> URL option"
  inherited :: "string \<Rightarrow> string option"

section \<open>Safe HTML parsing\<close>

text \<open>
  \<open>doc.body\<close> and \<open>doc.querySelectorAll\<close> are read as the document's own. A document
  shows its \<open>embed\<close>, \<open>form\<close>, \<open>iframe\<close>, \<open>img\<close> and \<open>object\<close> elements under their
  names as a form shows its controls; the documents in which one of them is named
  \<open>body\<close> or \<open>querySelectorAll\<close> are outside the model.
\<close>

fun firstElement :: "node list \<Rightarrow> node option" where
  "firstElement [] = None"
| "firstElement (n # ns) = (if isElement n then Some n else firstElement ns)"

definition body :: "node list \<Rightarrow> node option" where
  \<comment> \<open>\<open>doc.body\<close>: the first \<open>body\<close> or \<open>frameset\<close> child of the \<open>html\<close> document
      element, or null\<close>
  "body doc =
     (case firstElement doc of
        Some (Element t a cs) \<Rightarrow>
          if t = ''html'' then find (hasTag [''body'', ''frameset'']) cs else None
      | _ \<Rightarrow> None)"

fun setChildren :: "node \<Rightarrow> node list \<Rightarrow> node" where
  "setChildren (Element t a cs) ns = Element t a ns"
| "setChildren n ns = n"

definition setTextContent :: "node \<Rightarrow> string \<Rightarrow> node" where
  \<comment> \<open>\<open>element.textContent = s\<close>\<close>
  "setTextContent element s = setChildren element (if s = [] then [] else [Text s])"

definition safeSetHTML :: "env \<Rightarrow> node \<Rightarrow> string \<Rightarrow> node" where
  \<comment> \<open>the element after the call. The \<open>catch\<close> is reached when the parser throws,
      when the sanitizer throws, or when \<open>doc.body\<close> is null.\<close>
  "safeSetHTML env element htmlContent =
     (if htmlContent = [] then element
      else
        (case parseFromString env htmlContent of
           None \<Rightarrow> setTextContent element (stripHtmlTags htmlContent)
         | Some doc \<Rightarrow>
             (case sanitizeDocument doc of
                None \<Rightarrow> setTextContent element (stripHtmlTags htmlContent)
              | Some doc' \<Rightarrow>
                  (case body doc' of
                     None \<Rightarrow> setTextContent element (stripHtmlTags htmlContent)
                   | Some b \<Rightarrow> setChildren element (childNodes b)))))"

definition createElement :: "string \<Rightarrow> node" where
  "createElement tag = Element tag [] []"

section \<open>The text flattener\<close>

fun tagName :: "node \<Rightarrow> string" where
  "tagName (Element t a cs) = t"
| "tagName (Template a fragment) = ''template''"
| "tagName n = []"

definition replaceWithin :: "(node \<Rightarrow> bool) \<Rightarrow> (node \<Rightarrow> node) \<Rightarrow> node \<Rightarrow> node" where
  \<comment> \<open>\<open>element.querySelectorAll(sel).forEach(e => e.replaceWith(f(e)))\<close>: the element
      itself is never among the nodes selected\<close>
  "replaceWithin p f element = setChildren element (map (replaceEach p f) (childNodes element))"

definition tableToText :: "node \<Rightarrow> string" where
  "tableToText tableElement =
     foldl (\<lambda>text row.
         text @ join [CHR 0x09]
           (map (\<lambda>cell. trim (textContent cell)) (querySelectorAll [''td'', ''th''] row))
         @ ''\<newline>'')
       ''\<newline>'' (querySelectorAll [''tr''] tableElement)
     @ ''\<newline>''"

definition processTablesForText :: "node \<Rightarrow> node" where
  "processTablesForText element =
     replaceWithin (hasTag [''table'']) (\<lambda>table. Text (tableToText table)) element"

definition processCodeBlocksForText :: "node \<Rightarrow> node" where
  "processCodeBlocksForText element =
     replaceWithin (hasTag [''pre'', ''code''])
       (\<lambda>block. Text (''\<newline>'' @ textContent block @ ''\<newline>'')) element"

fun showNat :: "nat \<Rightarrow> string" where
  \<comment> \<open>a number in a template literal: its decimal digits\<close>
  "showNat n =
     (if n < 10 then [''0123456789'' ! n]
      else showNat (n div 10) @ [''0123456789'' ! (n mod 10)])"

declare showNat.simps [simp del]

text \<open>
  The list pass reads the text of each \<open>li\<close> inside a \<open>try\<close>. The getter is an argument
  of the loop, so that the \<open>catch\<close> is a branch of the model: \<open>None\<close> is a getter that
  throws. The pass itself runs with the DOM's \<open>textContent\<close>.
\<close>

fun listItems :: "(node \<Rightarrow> string option) \<Rightarrow> bool \<Rightarrow> nat \<Rightarrow> node list \<Rightarrow> string \<Rightarrow> string" where
  \<comment> \<open>\<open>items.forEach((item, index) => { try { text += ... } catch { } })\<close> from
      \<open>index\<close> on\<close>
  "listItems get isOrdered index [] text = text"
| "listItems get isOrdered index (item # items) text =
     listItems get isOrdered (Suc index) items
       (case get item of
          None \<Rightarrow> text
        | Some tc \<Rightarrow>
            text @ (if isOrdered then showNat (index + 1) @ ''. '' else [bullet, CHR '' ''])
              @ trim tc @ ''\<newline>'')"

definition listToText :: "(node \<Rightarrow> string option) \<Rightarrow> node \<Rightarrow> string" where
  "listToText get list =
     listItems get (toLowerCase (tagName list) = ''ol'') 0
       (querySelectorAll [''li''] list) ''\<newline>''
     @ ''\<newline>''"

definition processListsForText :: "node \<Rightarrow> node" where
  "processListsForText element =
     replaceWithin (hasTag [''ul'', ''ol''])
       (\<lambda>list. Text (listToText (\<lambda>item. Some (textContent item)) list)) element"

definition shouldSeparateElements :: "node \<Rightarrow> node \<Rightarrow> string \<Rightarrow> string \<Rightarrow> bool" where
  "shouldSeparateElements current next currentText nextText =
     (let blockTags = [''div'', ''p'', ''h1'', ''h2'', ''h3'', ''h4'', ''h5'', ''h6'',
                       ''blockquote'', ''section'', ''article''] in
      if toLowerCase (tagName current) \<in> set blockTags
         \<or> toLowerCase (tagName next) \<in> set blockTags then True
      else if toLowerCase (tagName current) = ''span''
              \<and> toLowerCase (tagName next) = ''span''
              \<and> length currentText > 10 \<and> length nextText > 10 then True
      else if toLowerCase (tagName current) = ''button''
              \<or> toLowerCase (tagName next) = ''button'' then True
      else False)"

definition needsSpacer :: "node \<Rightarrow> node \<Rightarrow> bool" where
  \<comment> \<open>one round of the loop of \<open>processDirectChildren\<close>: is a spacer put before
      \<open>next\<close>?\<close>
  "needsSpacer current next =
     (let currentText = trim (textContent current); nextText = trim (textContent next) in
      if currentText = [] \<or> nextText = [] \<or> length currentText < 3 \<or> length nextText < 3
      then False
      else shouldSeparateElements current next currentText nextText)"

fun processDirectChildren :: "node option \<Rightarrow> node list \<Rightarrow> node list" where
  \<comment> \<open>the child nodes of a container after \<open>processDirectChildren(container)\<close>. The
      loop pairs each element child with the next element child and puts the spacer
      right before the latter; the first argument is the last element child passed.\<close>
  "processDirectChildren prev [] = []"
| "processDirectChildren prev (n # ns) =
     (if isElement n then
        (case prev of
           None \<Rightarrow> n # processDirectChildren (Some n) ns
         | Some current \<Rightarrow>
             (if needsSpacer current n then [Text ''\<newline>''] else [])
             @ n # processDirectChildren (Some n) ns)
      else n # processDirectChildren prev ns)"

definition containerTags :: "string list" where
  "containerTags = [''div'', ''span'', ''section'', ''article'', ''header'', ''footer'',
                    ''nav'', ''aside'', ''main'']"

function spaceContainers :: "node \<Rightarrow> node" where
  \<comment> \<open>\<open>querySelectorAll(containers).forEach(c => processDirectChildren(c))\<close> on a node
      and below it: a container is visited before the containers inside it, so its
      own children are compared as they were, and its spacers are text nodes, which the
      later visits leave alone\<close>
  "spaceContainers (Element t a cs) =
     Element t a (map spaceContainers
       (if t \<in> set containerTags then processDirectChildren None cs else cs))"
| "spaceContainers (Template a fragment) = Template a fragment"
| "spaceContainers (Text s) = Text s"
| "spaceContainers (Comment s) = Comment s"
  by pat_completeness auto

termination
proof (relation "measure size")
  show "wf (measure size)" by simp
next
  fix t :: string and a :: attrs and cs :: "node list" and x :: node
  have spacer: "n = Text ''\<newline>'' \<or> n \<in> set ns"
    if "n \<in> set (processDirectChildren prev ns)" for n prev ns
    using that
    by (induction prev ns rule: processDirectChildren.induct)
      (auto split: option.splits if_splits)
  assume "x \<in> set (if t \<in> set containerTags then processDirectChildren None cs else cs)"
  then have "x = Text ''\<newline>'' \<or> x \<in> set cs"
    by (auto dest: spacer split: if_splits)
  moreover have "x \<in> set cs \<Longrightarrow> size x < size (Element t a cs)"
    by (induction cs) auto
  ultimately show "(x, Element t a cs) \<in> measure size" by auto
qed

definition addSpacingBetweenSiblings :: "node \<Rightarrow> node" where
  \<comment> \<open>the containers below the element first, the element's own children last\<close>
  "addSpacingBetweenSiblings element =
     setChildren element
       (processDirectChildren None (map spaceContainers (childNodes element)))"

definition blockSelector :: "string list" where
  "blockSelector = [''div'', ''p'', ''h1'', ''h2'', ''h3'', ''h4'', ''h5'', ''h6'',
                    ''blockquote'', ''section'', ''article'', ''header'', ''footer'',
                    ''nav'', ''aside'', ''main'']"

definition processBlockElementsForText :: "node \<Rightarrow> node" where
  \<comment> \<open>a block with blank text is left in place; the blocks inside it have blank text
      too\<close>
  "processBlockElementsForText element =
     replaceWithin
       (\<lambda>block. hasTag blockSelector block
          \<and> textContent block \<noteq> [] \<and> trim (textContent block) \<noteq> [])
       (\<lambda>block. Text (''\<newline>'' @ trim (textContent block) @ ''\<newline>''))
       (replaceWithin (hasTag [''br'']) (\<lambda>br. Text ''\<newline>'')
          (addSpacingBetweenSiblings element))"

definition htmlToText :: "env \<Rightarrow> string \<Rightarrow> string" where
  \<comment> \<open>the DOM calls of the four passes do not throw, so their \<open>catch\<close> blocks are
      never entered; \<open>innerText\<close> of the detached \<open>div\<close> is empty when its
      \<open>textContent\<close> is\<close>
  "htmlToText env htmlContent =
     (if htmlContent = [] then []
      else if \<not> hasDocument env then stripHtmlTags htmlContent
      else
        (let tempDiv = safeSetHTML env (createElement ''div'') htmlContent;
             tempDiv = processTablesForText tempDiv;
             tempDiv = processCodeBlocksForText tempDiv;
             tempDiv = processListsForText tempDiv;
             tempDiv = processBlockElementsForText tempDiv
         in textContent tempDiv))"

section \<open>The Markdown renderer\<close>

fun split :: "char \<Rightarrow> string \<Rightarrow> string list" where
  \<comment> \<open>\<open>s.split(c)\<close>\<close>
  "split c [] = [[]]"
| "split c (x # xs) =
     (if x = c then [] # split c xs
      else (case split c xs of [] \<Rightarrow> [[x]] | l # ls \<Rightarrow> (x # l) # ls))"

definition truthy :: "string option \<Rightarrow> bool" where
  \<comment> \<open>the truth value of what \<open>getAttribute\<close> returns: null and the empty string
      are false\<close>
  "truthy v \<longleftrightarrow> (case v of None \<Rightarrow> False | Some s \<Rightarrow> s \<noteq> [])"

definition markdownConverters ::
    "string \<Rightarrow> (string \<Rightarrow> node \<Rightarrow> string \<Rightarrow> nat \<Rightarrow> string) option" where
  \<comment> \<open>the table of the constructor. A converter gets the rendered text, the element,
      the tag of the element's parent (what the \<open>li\<close> converter reads of
      \<open>element.parentElement\<close>) and the index. The one more key that the lookup finds,
      the inherited \<open>constructor\<close>, wraps the text in a String object, which the
      \<open>+=\<close> reads as the text: the same as no converter.\<close>
  "markdownConverters tag =
     (if tag = ''h1'' then Some (\<lambda>text element parent index. ''# '' @ text @ ''\<newline>\<newline>'')
      else if tag = ''h2'' then Some (\<lambda>text element parent index. ''## '' @ text @ ''\<newline>\<newline>'')
      else if tag = ''h3'' then Some (\<lambda>text element parent index. ''### '' @ text @ ''\<newline>\<newline>'')
      else if tag = ''h4'' then Some (\<lambda>text element parent index. ''#### '' @ text @ ''\<newline>\<newline>'')
      else if tag = ''h5'' then Some (\<lambda>text element parent index. ''##### '' @ text @ ''\<newline>\<newline>'')
      else if tag = ''h6'' then Some (\<lambda>text element parent index. ''###### '' @ text @ ''\<newline>\<newline>'')
      else if tag = ''p'' then Some (\<lambda>text element parent index. text @ ''\<newline>\<newline>'')
      else if tag = ''br'' then Some (\<lambda>text element parent index. ''\<newline>'')
      else if tag = ''strong'' then Some (\<lambda>text element parent index. ''**'' @ text @ ''**'')
      else if tag = ''b'' then Some (\<lambda>text element parent index. ''**'' @ text @ ''**'')
      else if tag = ''em'' then Some (\<lambda>text element parent index. ''*'' @ text @ ''*'')
      else if tag = ''i'' then Some (\<lambda>text element parent index. ''*'' @ text @ ''*'')
      else if tag = ''code'' then Some (\<lambda>text element parent index. [CHR 0x60] @ text @ [CHR 0x60])
      else if tag = ''a'' then
        Some (\<lambda>text element parent index.
          (case element of
             Element t attributes cs \<Rightarrow>
               (let href = getAttribute ''href'' attributes in
                if truthy href then ''['' @ text @ ''](''  @ the href @ '')'' else text)
           | _ \<Rightarrow> text))
      else if tag = ''img'' then
        Some (\<lambda>text element parent index.
          (case element of
             Element t attributes cs \<Rightarrow>
               (let src = getAttribute ''src'' attributes;
                    alt = (if truthy (getAttribute ''alt'' attributes)
                           then the (getAttribute ''alt'' attributes) else text) in
                if truthy src then ''!['' @ alt @ ''](''  @ the src @ '')''
                else ''[Image: '' @ alt @ '']'')
           | _ \<Rightarrow> text))
      else if tag = ''blockquote'' then
        Some (\<lambda>text element parent index.
          join ''\<newline>'' (map (\<lambda>line. ''> '' @ line) (split CHR ''\<newline>'' text)) @ ''\<newline>\<newline>'')
      else if tag = ''ul'' then Some (\<lambda>text element parent index. text @ ''\<newline>'')
      else if tag = ''ol'' then Some (\<lambda>text element parent index. text @ ''\<newline>'')
      else if tag = ''li'' then
        Some (\<lambda>text element parent index.
          (if toLowerCase parent = ''ol'' then showNat (index + 1) @ ''. '' else ''- '')
          @ text @ ''\<newline>'')
      else None)"

fun tableRows :: "env \<Rightarrow> (string \<Rightarrow> string) \<Rightarrow> nat \<Rightarrow> node list \<Rightarrow> string \<Rightarrow> string" where
  \<comment> \<open>\<open>rows.forEach((row, rowIndex) => ...)\<close> of \<open>tableToMarkdown\<close> from \<open>rowIndex\<close>
      on; the second argument is \<open>htmlToText\<close>\<close>
  "tableRows env toText rowIndex [] markdown = markdown"
| "tableRows env toText rowIndex (row # rows) markdown =
     (let cells = querySelectorAll [''td'', ''th''] row;
          cellContents =
            map (\<lambda>cell. trim (replaceAll (reLiteral ''|'') [CHR 0x5C, CHR ''|'']
                           (toText (innerHTML env cell)))) cells;
          markdown = markdown @ ''| '' @ join '' | '' cellContents @ '' |\<newline>'';
          markdown =
            (if rowIndex = 0 \<and> length cells > 0
             then markdown @ ''| '' @ join '' | '' (map (\<lambda>cell. ''---'') cells) @ '' |\<newline>''
             else markdown)
      in tableRows env toText (Suc rowIndex) rows markdown)"

definition tableToMarkdown :: "env \<Rightarrow> node \<Rightarrow> string" where
  "tableToMarkdown env tableElement =
     (let rows = querySelectorAll [''tr''] tableElement in
      if length rows = 0 then []
      else tableRows env (htmlToText env) 0 rows ''\<newline>'' @ ''\<newline>'')"

definition wordAfter :: "string \<Rightarrow> string \<Rightarrow> string option" where
  \<comment> \<open>\<open>lit(\w+)\<close> at the start of \<open>s\<close>: the group\<close>
  "wordAfter lit s =
     (let w = takeWhile isWordChar (drop (length lit) s) in
      if prefix lit s \<and> w \<noteq> [] then Some w else None)"

fun langMatch :: "string \<Rightarrow> string option" where
  \<comment> \<open>\<open>s.match(/language-(\w+)|lang-(\w+)/)\<close>: the group of the leftmost match, the
      first alternative tried first\<close>
  "langMatch [] = None"
| "langMatch (c # cs) =
     (case wordAfter ''language-'' (c # cs) of
        Some w \<Rightarrow> Some w
      | None \<Rightarrow>
          (case wordAfter ''lang-'' (c # cs) of
             Some w \<Rightarrow> Some w
           | None \<Rightarrow> langMatch cs))"

definition detectCodeLanguage :: "node \<Rightarrow> string" where
  "detectCodeLanguage element =
     (case element of
        Element t attributes cs \<Rightarrow>
          (let classNames = (case getAttribute ''class'' attributes of None \<Rightarrow> [] | Some c \<Rightarrow> c) in
           case langMatch classNames of
             Some lang \<Rightarrow> lang
           | None \<Rightarrow>
               (let dataLang = getAttribute ''data-language'' attributes in
                if truthy dataLang then the dataLang else []))
      | _ \<Rightarrow> [])"

definition preToMarkdown :: "node \<Rightarrow> string" where
  "preToMarkdown preElement =
     (let content =
            (case querySelectorAll [''code''] preElement of
               codeElement # _ \<Rightarrow> textContent codeElement
             | [] \<Rightarrow> textContent preElement);
          language = detectCodeLanguage preElement
      in ''\<newline>'' @ replicate 3 (CHR 0x60) @ language @ ''\<newline>'' @ content @ ''\<newline>''
         @ replicate 3 (CHR 0x60) @ ''\<newline>\<newline>'')"

fun processChildNodes :: "env \<Rightarrow> string \<Rightarrow> nat \<Rightarrow> node list \<Rightarrow> string" where
  \<comment> \<open>the loop \<open>for (const node of element.childNodes)\<close> of
      \<open>processElementToMarkdown\<close>: the tag of \<open>element\<close>, the number of element
      children passed (the index of the next one among \<open>element.children\<close>), the
      child nodes still to come\<close>
  "processChildNodes env parent index [] = []"
| "processChildNodes env parent index (Text s # nodes) =
     s @ processChildNodes env parent index nodes"
| "processChildNodes env parent index (Comment s # nodes) =
     processChildNodes env parent index nodes"
| "processChildNodes env parent index (Element t a cs # nodes) =
     (let tagName = toLowerCase t;
          textContent = processChildNodes env t 0 cs
      in (if tagName = ''table'' then tableToMarkdown env (Element t a cs)
          else if tagName = ''pre'' then preToMarkdown (Element t a cs)
          else (case markdownConverters tagName of
                  Some converter \<Rightarrow> converter textContent (Element t a cs) parent index
                | None \<Rightarrow> textContent))
         @ processChildNodes env parent (Suc index) nodes)"
| "processChildNodes env parent index (Template a fragment # nodes) =
     (let tagName = ''template'';
          textContent = []
      in (case markdownConverters tagName of
            Some converter \<Rightarrow> converter textContent (Template a fragment) parent index
          | None \<Rightarrow> textContent)
         @ processChildNodes env parent (Suc index) nodes)"

definition processElementToMarkdown :: "env \<Rightarrow> node \<Rightarrow> string" where
  "processElementToMarkdown env element =
     processChildNodes env (tagName element) 0 (childNodes element)"

definition htmlToMarkdown :: "env \<Rightarrow> string \<Rightarrow> string" where
  "htmlToMarkdown env htmlContent =
     (if htmlContent = [] then []
      else if \<not> hasDocument env then stripHtmlTags htmlContent
      else processElementToMarkdown env (safeSetHTML env (createElement ''div'') htmlContent))"

section \<open>The URL validator\<close>

text \<open>
  A value that the caller may pass where the code expects a string: \<open>typeof\<close> tells
  the strings from the rest. Numbers are the integers.
\<close>

datatype jsvalue = Undefined | Null | Boolean bool | Number int | Str string | Object

fun toBoolean :: "jsvalue \<Rightarrow> bool" where
  \<comment> \<open>the truth value of a condition\<close>
  "toBoolean Undefined = False"
| "toBoolean Null = False"
| "toBoolean (Boolean b) = b"
| "toBoolean (Number n) = (n \<noteq> 0)"
| "toBoolean (Str s) = (s \<noteq> [])"
| "toBoolean Object = True"

fun toStr :: "jsvalue \<Rightarrow> string" where
  \<comment> \<open>the value in a template literal\<close>
  "toStr Undefined = ''undefined''"
| "toStr Null = ''null''"
| "toStr (Boolean b) = (if b then ''true'' else ''false'')"
| "toStr (Number n) = (if n < 0 then ''-'' @ showNat (nat (- n)) else showNat (nat n))"
| "toStr (Str s) = s"
| "toStr Object = ''[object Object]''"

definition allowedDomains :: "string list" where
  "allowedDomains = [''chat.openai.com'', ''chatgpt.com'', ''claude.ai'',
                     ''gemini.google.com'', ''x.com'', ''grok.com'']"

definition isValidUrl :: "env \<Rightarrow> jsvalue \<Rightarrow> bool" where
  "isValidUrl env url =
     (case url of
        Str s \<Rightarrow>
          (case newURL env s of
             None \<Rightarrow> False
           | Some urlObj \<Rightarrow>
               if protocol urlObj \<notin> set [''https:'', ''http:''] then False
               else list_ex (\<lambda>domain. hostname urlObj = domain
                                \<or> endsWith (hostname urlObj) (''.'' @ domain))
                      allowedDomains)
      | _ \<Rightarrow> False)"

section \<open>The document assembler\<close>

record message =
  role :: string
  content :: string

record options =
  includeTimestamps :: jsvalue
  includeMetadata :: jsvalue
  platform :: jsvalue
  url :: jsvalue

definition roleMap :: "(string \<times> string) list" where
  "roleMap = [(''user'', ''User''), (''assistant'', ''Assistant''), (''system'', ''System''),
              (''claude'', ''Claude''), (''gpt'', ''ChatGPT''), (''gemini'', ''Gemini''),
              (''grok'', ''Grok'')]"

definition getRoleDisplay :: "env \<Rightarrow> string \<Rightarrow> string" where
  \<comment> \<open>\<open>roleMap[role]\<close> finds an own key of the table or, for a key such as
      \<open>constructor\<close>, what the table inherits; either is truthy\<close>
  "getRoleDisplay env r =
     (case map_of roleMap r of
        Some display \<Rightarrow> display
      | None \<Rightarrow>
          (case inherited env r of
             Some shown \<Rightarrow> shown
           | None \<Rightarrow> toUpperCase (take 1 r) @ drop 1 r))"

definition messageToText :: "env \<Rightarrow> message \<Rightarrow> options \<Rightarrow> string" where
  "messageToText env message options =
     (let text = [];
          roleDisplay = getRoleDisplay env (role message);
          text = text @ roleDisplay @ '':\<newline>'';
          content = htmlToText env (content message);
          text = text @ content
      in text)"

fun forEachMessage ::
    "env \<Rightarrow> message list \<Rightarrow> options \<Rightarrow> nat \<Rightarrow> message list \<Rightarrow> string \<Rightarrow> string" where
  \<comment> \<open>\<open>conversationData.forEach((message, index) => ...)\<close> of \<open>toText\<close> from
      \<open>index\<close> on: the whole array (for its length), the index, the messages still to
      come, the text so far\<close>
  "forEachMessage env conversationData options index [] text = text"
| "forEachMessage env conversationData options index (message # rest) text =
     (let text = text @ messageToText env message options;
          text = (if int index < int (length conversationData) - 1
                  then text @ ''\<newline>\<newline>'' else text)
      in forEachMessage env conversationData options (Suc index) rest text)"

definition toText :: "env \<Rightarrow> message list \<Rightarrow> options \<Rightarrow> string" where
  "toText env conversationData options =
     (let text = [];
          text = (if toBoolean (url options) \<and> isValidUrl env (url options)
                  then text @ ''chat url: '' @ toStr (url options) @ ''\<newline>\<newline>''
                  else text)
      in trim (forEachMessage env conversationData options 0 conversationData text))"

definition orDefault :: "jsvalue \<Rightarrow> jsvalue \<Rightarrow> jsvalue" where
  \<comment> \<open>a default of a destructuring pattern: taken when the property is undefined\<close>
  "orDefault v d = (if v = Undefined then d else v)"

definition processConversation :: "env \<Rightarrow> message list \<Rightarrow> jsvalue \<Rightarrow> options \<Rightarrow> string" where
  \<comment> \<open>an \<open>options\<close> argument left out is the record of four undefined properties\<close>
  "processConversation env conversationData format options =
     toText env conversationData
       \<lparr> includeTimestamps = orDefault (includeTimestamps options) (Boolean False),
         includeMetadata = orDefault (includeMetadata options) (Boolean True),
         platform = orDefault (platform options) (Str ''unknown''),
         url = orDefault (url options) (Str []) \<rparr>"

subsection \<open>The assembler with the caller's array as state\<close>

text \<open>
  The same three functions, each now taking the array of message records that the
  caller passed and returning it as the call leaves it. The source reads
  \<open>message.role\<close> and \<open>message.content\<close>, hands these two strings on, and assigns to no
  property of a message and to no slot of the array; the trees that the flattener
  rewrites are built from the strings.
\<close>

definition messageToText_st ::
    "env \<Rightarrow> nat \<Rightarrow> options \<Rightarrow> message list \<Rightarrow> string \<times> message list" where
  \<comment> \<open>the message is the record at slot \<open>index\<close>\<close>
  "messageToText_st env index options heap =
     (let text = [];
          roleDisplay = getRoleDisplay env (role (heap ! index));
          text = text @ roleDisplay @ '':\<newline>'';
          content = htmlToText env (content (heap ! index));
          text = text @ content
      in (text, heap))"

definition forEachStep ::
    "env \<Rightarrow> options \<Rightarrow> string \<times> message list \<Rightarrow> nat \<Rightarrow> string \<times> message list" where
  "forEachStep env options state index =
     (let (text, heap) = state;
          (block, heap) = messageToText_st env index options heap;
          text = text @ block;
          text = (if int index < int (length heap) - 1 then text @ ''\<newline>\<newline>'' else text)
      in (text, heap))"

definition toText_st :: "env \<Rightarrow> options \<Rightarrow> message list \<Rightarrow> string \<times> message list" where
  "toText_st env options heap =
     (let text = [];
          text = (if toBoolean (url options) \<and> isValidUrl env (url options)
                  then text @ ''chat url: '' @ toStr (url options) @ ''\<newline>\<newline>''
                  else text);
          (text, heap) = foldl (forEachStep env options) (text, heap) [0..<length heap]
      in (trim text, heap))"

definition processConversation_st ::
    "env \<Rightarrow> jsvalue \<Rightarrow> options \<Rightarrow> message list \<Rightarrow> string \<times> message list" where
  "processConversation_st env format options heap =
     toText_st env
       \<lparr> includeTimestamps = orDefault (includeTimestamps options) (Boolean False),
         includeMetadata = orDefault (includeMetadata options) (Boolean True),
         platform = orDefault (platform options) (Str ''unknown''),
         url = orDefault (url options) (Str []) \<rparr>
       heap"

section \<open>A page for the examples\<close>

text \<open>
  The examples need the browser's answers at a few strings. \<open>examplePage\<close> is a
  content-script context that has them: the trees are what the HTML parsing algorithm
  builds for these fragments (a leading \<open>script\<close> goes to the \<open>head\<close>, a \<open>table\<close> gets
  its \<open>tbody\<close>, what stands inside a \<open>template\<close> goes to its content), the URL
  records are what the URL parser returns, \<open>innerHTML\<close> is right for an element whose
  only child is a text node without markup characters, and the inherited keys are
  those of \<open>Object.prototype\<close>, a function shown as the engine prints a built-in. At
  any other string the parser of \<open>examplePage\<close> throws. \<open>exampleWorker\<close> is
  the same context without a \<open>document\<close>.
\<close>

definition htmlDocument :: "node list \<Rightarrow> node list \<Rightarrow> node list" where
  "htmlDocument headNodes bodyNodes =
     [Element ''html'' [] [Element ''head'' [] headNodes, Element ''body'' [] bodyNodes]]"

definition scriptFragment :: string where
  "scriptFragment = ''<script>alert(1)</script><p>hi</p>''"

definition scriptDocument :: "node list" where
  "scriptDocument =
     htmlDocument [Element ''script'' [] [Text ''alert(1)'']] [Element ''p'' [] [Text ''hi'']]"

definition dirtyFragment :: string where
  "dirtyFragment = ''<a href=javascript:alert(1) onclick=steal()>go</a><style>p{}</style>''"

definition dirtyDocument :: "node list" where
  "dirtyDocument =
     htmlDocument []
       [Element ''a'' [(''href'', ''javascript:alert(1)''), (''onclick'', ''steal()'')] [Text ''go''],
        Element ''style'' [] [Text ''p{}'']]"

definition listFragment :: string where
  "listFragment = ''<ul><li>a</li><li>b</li></ul>''"

definition listDocument :: "node list" where
  "listDocument =
     htmlDocument []
       [Element ''ul'' [] [Element ''li'' [] [Text ''a''], Element ''li'' [] [Text ''b'']]]"

definition templateFragment :: string where
  "templateFragment =
     ''<p>hi</p><template><script>alert(1)</script><img src=javascript:alert(2) onerror=alert(3)></template>''"

definition templateDocument :: "node list" where
  "templateDocument =
     htmlDocument []
       [Element ''p'' [] [Text ''hi''],
        Template []
          [Element ''script'' [] [Text ''alert(1)''],
           Element ''img'' [(''src'', ''javascript:alert(2)''), (''onerror'', ''alert(3)'')] []]]"

definition formFragment :: string where
  "formFragment = ''<form onmouseover=alert(1)><input name=attributes></form>''"

definition formDocument :: "node list" where
  "formDocument =
     htmlDocument []
       [Element ''form'' [(''onmouseover'', ''alert(1)'')]
          [Element ''input'' [(''name'', ''attributes'')] []]]"

definition nestedListFragment :: string where
  "nestedListFragment = ''<ul><li>a<ol><li>b</li></ol></li></ul>''"

definition nestedListDocument :: "node list" where
  "nestedListDocument =
     htmlDocument []
       [Element ''ul'' []
          [Element ''li'' [] [Text ''a'', Element ''ol'' [] [Element ''li'' [] [Text ''b'']]]]]"

definition codeItemFragment :: string where
  "codeItemFragment = ''<ul><li>use <code>x</code> now</li></ul>''"

definition codeItemDocument :: "node list" where
  "codeItemDocument =
     htmlDocument []
       [Element ''ul'' []
          [Element ''li'' [] [Text ''use '', Element ''code'' [] [Text ''x''], Text '' now'']]]"

definition exampleTable :: node where
  \<comment> \<open>\<open><table><tr><th>A</th></tr><tr><td>1</td></tr></table>\<close>\<close>
  "exampleTable =
     Element ''table'' []
       [Element ''tbody'' []
          [Element ''tr'' [] [Element ''th'' [] [Text ''A'']],
           Element ''tr'' [] [Element ''td'' [] [Text ''1'']]]]"

definition tableFragment :: string where
  "tableFragment = ''<table><tr><th>A</th></tr><tr><td>1</td></tr></table>''"

definition exampleParse :: "string \<Rightarrow> node list option" where
  "exampleParse s =
     (if s = ''<p>Hi</p>'' then Some (htmlDocument [] [Element ''p'' [] [Text ''Hi'']])
      else if s = ''<p>Hello</p>'' then Some (htmlDocument [] [Element ''p'' [] [Text ''Hello'']])
      else if s = ''<b>Hi</b>'' then Some (htmlDocument [] [Element ''b'' [] [Text ''Hi'']])
      else if s = scriptFragment then Some scriptDocument
      else if s = dirtyFragment then Some dirtyDocument
      else if s = listFragment then Some listDocument
      else if s = templateFragment then Some templateDocument
      else if s = formFragment then Some formDocument
      else if s = nestedListFragment then Some nestedListDocument
      else if s = codeItemFragment then Some codeItemDocument
      else if s = tableFragment then Some (htmlDocument [] [exampleTable])
      else if s = ''A'' then Some (htmlDocument [] [Text ''A''])
      else if s = ''1'' then Some (htmlDocument [] [Text ''1''])
      else None)"

definition exampleURL :: "string \<Rightarrow> URL option" where
  "exampleURL s =
     (if s = ''https://chatgpt.com/c/1''
        then Some \<lparr> protocol = ''https:'', hostname = ''chatgpt.com'' \<rparr>
      else if s = ''https://evil.com''
        then Some \<lparr> protocol = ''https:'', hostname = ''evil.com'' \<rparr>
      else if s = ''https://sub.claude.ai/x''
        then Some \<lparr> protocol = ''https:'', hostname = ''sub.claude.ai'' \<rparr>
      else if s = ''javascript:alert(1)''
        then Some \<lparr> protocol = ''javascript:'', hostname = [] \<rparr>
      else None)"

definition builtIn :: "string \<Rightarrow> string" where
  "builtIn name = ''function '' @ name @ ''() { [native code] }''"

definition objectPrototype :: "(string \<times> string) list" where
  "objectPrototype =
     (''constructor'', builtIn ''Object'')
     # (''__proto__'', ''[object Object]'')
     # map (\<lambda>name. (name, builtIn name))
         [''hasOwnProperty'', ''isPrototypeOf'', ''propertyIsEnumerable'', ''toLocaleString'',
          ''toString'', ''valueOf'', ''__defineGetter__'', ''__defineSetter__'',
          ''__lookupGetter__'', ''__lookupSetter__'']"

definition examplePage :: env where
  "examplePage =
     \<lparr> hasDocument = True,
       parseFromString = exampleParse,
       innerHTML = (\<lambda>n. case n of Element t a [Text s] \<Rightarrow> s | _ \<Rightarrow> []),
       newURL = exampleURL,
       inherited = map_of objectPrototype \<rparr>"

definition exampleWorker :: env where
  "exampleWorker = examplePage \<lparr> hasDocument := False \<rparr>"

definition noOptions :: options where
  \<comment> \<open>the \<open>options\<close> argument \<open>{}\<close>\<close>
  "noOptions =
     \<lparr> includeTimestamps = Undefined, includeMetadata = Undefined,
       platform = Undefined, url = Undefined \<rparr>"

definition hiMessage :: message where
  "hiMessage = \<lparr> role = ''user'', content = ''<p>Hi</p>'' \<rparr>"

definition helloMessage :: message where
  "helloMessage = \<lparr> role = ''assistant'', content = ''<p>Hello</p>'' \<rparr>"

definition boldMessage :: message where
  "boldMessage = \<lparr> role = ''user'', content = ''<b>Hi</b>'' \<rparr>"

definition orderedList :: node where
  \<comment> \<open>\<open><ol><li>x</li><li>y</li><li>z</li></ol>\<close>\<close>
  "orderedList =
     Element ''ol'' []
       [Element ''li'' [] [Text ''x''], Element ''li'' [] [Text ''y''],
        Element ''li'' [] [Text ''z'']]"

definition failingOnY :: "node \<Rightarrow> string option" where
  \<comment> \<open>a getter that throws on the second item\<close>
  "failingOnY item =
     (if item = Element ''li'' [] [Text ''y''] then None else Some (textContent item))"

section \<open>The properties in the words of the specification\<close>

text \<open>
  The definitions of this section are not taken from the code. Each writes down a
  notion that the specification uses to say what the code does, so that the theorems
  below can compare the two.
\<close>

subsection \<open>A safe tree\<close>

text \<open>
  A tree is safe when none of its elements is a \<open>script\<close> or a \<open>style\<close>, none has an
  attribute whose lower-cased name starts with \<open>on\<close>, and none has an attribute
  \<open>href\<close>, \<open>src\<close>, \<open>action\<close>, \<open>formaction\<close> or \<open>data\<close> whose lower-cased, trimmed
  value starts with one of the four schemes. The elements of a tree are also those in
  the content of a \<open>template\<close> of the tree. \<open>noTags\<close> says of a tree that none of its
  elements, the contents of templates aside, has one of the given tags.
\<close>

definition isDangerous :: "string \<Rightarrow> bool" where
  "isDangerous v \<longleftrightarrow>
     list_ex (\<lambda>scheme. startsWith (trim (toLowerCase v)) scheme)
       [''javascript:'', ''data:'', ''vbscript:'', ''file:'']"

definition safeAttribute :: "string \<times> string \<Rightarrow> bool" where
  "safeAttribute nv \<longleftrightarrow>
     \<not> startsWith (toLowerCase (fst nv)) ''on''
     \<and> \<not> (fst nv \<in> set [''href'', ''src'', ''action'', ''formaction'', ''data'']
          \<and> isDangerous (snd nv))"

fun safeNode :: "node \<Rightarrow> bool" where
  "safeNode (Element t a cs) =
     (t \<noteq> ''script'' \<and> t \<noteq> ''style'' \<and> list_all safeAttribute a \<and> list_all safeNode cs)"
| "safeNode (Template a fragment) = (list_all safeAttribute a \<and> list_all safeNode fragment)"
| "safeNode n = True"

fun noTags :: "string list \<Rightarrow> node \<Rightarrow> bool" where
  "noTags ts (Element t a cs) = (t \<notin> set ts \<and> list_all (noTags ts) cs)"
| "noTags ts (Template a fragment) = (''template'' \<notin> set ts)"
| "noTags ts n = True"

subsection \<open>An allowed URL\<close>

text \<open>
  A host is allowed when it is one of the six hosts of the allow-list or a subdomain
  of one: a host name whose labels end with the labels of the other and have at least
  one label before them.
\<close>

definition schemeIs :: "URL \<Rightarrow> string \<Rightarrow> bool" where
  \<comment> \<open>the \<open>protocol\<close> of a URL record is its scheme and a colon\<close>
  "schemeIs u scheme \<longleftrightarrow> protocol u = scheme @ '':''"

definition labels :: "string \<Rightarrow> string list" where
  \<comment> \<open>the labels of a host name, the dots between them left out\<close>
  "labels h = split CHR ''.'' h"

definition isSubdomainOf :: "string \<Rightarrow> string \<Rightarrow> bool" where
  \<comment> \<open>\<open>h\<close> has the labels of \<open>d\<close> at its end and at least one label before them\<close>
  "isSubdomainOf h d \<longleftrightarrow>
     length (labels d) < length (labels h)
     \<and> drop (length (labels h) - length (labels d)) (labels h) = labels d"

definition hostAllowed :: "string \<Rightarrow> bool" where
  "hostAllowed h \<longleftrightarrow>
     list_ex (\<lambda>d. h = d \<or> isSubdomainOf h d)
       [''chat.openai.com'', ''chatgpt.com'', ''claude.ai'', ''gemini.google.com'',
        ''x.com'', ''grok.com'']"

subsection \<open>The blocks of a document and the blank lines between them\<close>

definition block :: "env \<Rightarrow> message \<Rightarrow> string" where
  \<comment> \<open>the rendered block of a message: the role header line, then the content as text\<close>
  "block env message =
     getRoleDisplay env (role message) @ '':\<newline>'' @ htmlToText env (content message)"

definition preamble :: "string \<Rightarrow> string" where
  "preamble u = ''chat url: '' @ u @ ''\<newline>\<newline>''"

text \<open>
  Exactly one blank line between the rendered blocks: the lines of the document are
  the lines of the first block, one empty line, the lines of the next block, and so
  on, where the lines of a block are those of its text, the white space around it
  aside (the document is trimmed as a whole).
\<close>

definition linesOf :: "string \<Rightarrow> string list" where
  "linesOf s = split CHR ''\<newline>'' s"

definition oneBlankLineBetween :: "string list \<Rightarrow> string \<Rightarrow> bool" where
  "oneBlankLineBetween bs document \<longleftrightarrow>
     linesOf document = join [[]] (map (\<lambda>b. linesOf (trim b)) bs)"

subsection \<open>The rows of a Markdown table\<close>

text \<open>
  The text of a cell is the flattened inner HTML with every \<open>|\<close> written as \<open>\|\<close>,
  trimmed; a row is the cell texts between pipes; the separator row has one \<open>---\<close>
  for each cell of the row.
\<close>

definition escapePipes :: "string \<Rightarrow> string" where
  "escapePipes s = concat (map (\<lambda>c. if c = CHR ''|'' then [CHR 0x5C, CHR ''|''] else [c]) s)"

definition cellText :: "env \<Rightarrow> node \<Rightarrow> string" where
  "cellText env cell = trim (escapePipes (htmlToText env (innerHTML env cell)))"

definition rowLine :: "env \<Rightarrow> node \<Rightarrow> string" where
  "rowLine env row =
     ''| '' @ join '' | '' (map (cellText env) (querySelectorAll [''td'', ''th''] row)) @ '' |\<newline>''"

definition separatorLine :: "node \<Rightarrow> string" where
  "separatorLine row =
     ''| '' @ join '' | '' (replicate (length (querySelectorAll [''td'', ''th''] row)) ''---'')
     @ '' |\<newline>''"

subsection \<open>The lines of a list block\<close>

text \<open>
  The prefix of the item at \<open>index\<close>; the lines of the items, one for each item
  whose text can be read; a text given by its lines, each ended by a newline; and
  the place of a list in a tree, as the path of child positions that leads to it.
\<close>

definition itemPrefix :: "bool \<Rightarrow> nat \<Rightarrow> string" where
  "itemPrefix isOrdered index =
     (if isOrdered then showNat (index + 1) @ ''. '' else [bullet, CHR '' ''])"

definition itemLines :: "(node \<Rightarrow> string option) \<Rightarrow> bool \<Rightarrow> nat \<Rightarrow> node list \<Rightarrow> string list" where
  \<comment> \<open>one line for each item whose text can be read, the items numbered from
      \<open>index\<close> on\<close>
  "itemLines get isOrdered index items =
     List.map_filter
       (\<lambda>(i, item). map_option (\<lambda>tc. itemPrefix isOrdered i @ trim tc) (get item))
       (enumerate index items)"

definition asLines :: "string list \<Rightarrow> string" where
  "asLines ls = concat (map (\<lambda>l. l @ ''\<newline>'') ls)"

fun nodeAt :: "nat list \<Rightarrow> node \<Rightarrow> node option" where
  \<comment> \<open>the node reached from a node by a path of child positions\<close>
  "nodeAt [] n = Some n"
| "nodeAt (i # path) (Element t a cs) = (if i < length cs then nodeAt path (cs ! i) else None)"
| "nodeAt (i # path) n = None"

fun listAt :: "nat list \<Rightarrow> node list \<Rightarrow> node option" where
  \<comment> \<open>the list that a path leads to from the children of the root, when no node on
      the way to it is a list itself\<close>
  "listAt [] cs = None"
| "listAt (i # path) cs =
     (if i < length cs then
        (if hasTag [''ul'', ''ol''] (cs ! i) then (if path = [] then Some (cs ! i) else None)
         else listAt path (childNodes (cs ! i)))
      else None)"

section \<open>What the sanitizer reaches and what it misses\<close>

lemma removeAttribute_subset: "set (removeAttribute n as) \<subseteq> set as"
  by (induction n as rule: removeAttribute.induct) auto

lemma removeAttribute_distinct: "distinct (map fst as) \<Longrightarrow> distinct (map fst (removeAttribute n as))"
proof (induction n as rule: removeAttribute.induct)
  case (1 n) then show ?case by simp
next
  case (2 n k v as)
  have "k \<notin> fst ` set (removeAttribute n as)"
    using 2 removeAttribute_subset[of n as] by auto
  then show ?case using 2 by auto
qed

lemma removeAttribute_length: "n \<in> fst ` set as \<Longrightarrow> Suc (length (removeAttribute n as)) = length as"
  by (induction n as rule: removeAttribute.induct) (auto split: if_splits)

lemma removeAttribute_drop:
  "k < length as \<Longrightarrow> fst (as ! k) = n \<Longrightarrow> drop k (removeAttribute n as) = drop (Suc k) as"
proof (induction as arbitrary: k)
  case Nil then show ?case by simp
next
  case (Cons x xs)
  obtain a b where x: "x = (a, b)" by (cases x)
  show ?case
  proof (cases "a = n")
    case True then show ?thesis using x by simp
  next
    case False
    then obtain j where k: "k = Suc j" using Cons.prems x by (cases k) auto
    then show ?thesis using Cons x False by simp
  qed
qed

lemma removeAttribute_absent:
  "distinct (map fst as) \<Longrightarrow> n \<notin> fst ` set (removeAttribute n as)"
  by (induction n as rule: removeAttribute.induct) (auto split: if_splits)

lemma namedProperty_no_form: "\<not> hasTag [''form''] e \<Longrightarrow> namedProperty e name = []"
  by (simp add: namedProperty_def)

lemma removeAttributeOf_no_form:
  "\<not> hasTag [''form''] e \<Longrightarrow> removeAttributeOf e n as = Some (removeAttribute n as)"
  by (simp add: removeAttributeOf_def namedProperty_no_form)

lemma removeEventHandlers_total:
  "\<not> hasTag [''form''] e \<Longrightarrow> k \<le> length as \<Longrightarrow>
   \<forall>x \<in> set (drop k as). \<not> isEventHandler (fst x) \<Longrightarrow>
   \<exists>r. removeEventHandlers e k as = Some r \<and> (\<forall>x \<in> set r. \<not> isEventHandler (fst x))
       \<and> set r \<subseteq> set as \<and> (distinct (map fst as) \<longrightarrow> distinct (map fst r))"
proof (induction k arbitrary: as)
  case 0 then show ?case by simp
next
  case (Suc k)
  have k: "k < length as" using Suc.prems by simp
  note nf = Suc.prems(1)
  show ?case
  proof (cases "isEventHandler (fst (as ! k))")
    case True
    let ?as = "removeAttribute (fst (as ! k)) as"
    have mem: "fst (as ! k) \<in> fst ` set as" using k by (metis image_eqI nth_mem)
    have len: "k \<le> length ?as" using removeAttribute_length[OF mem] k by simp
    have dr: "drop k ?as = drop (Suc k) as" using removeAttribute_drop[OF k refl] .
    from Suc.IH[OF nf len] dr Suc.prems(3)
    obtain r where r: "removeEventHandlers e k ?as = Some r" "\<forall>x \<in> set r. \<not> isEventHandler (fst x)"
      "set r \<subseteq> set ?as" "distinct (map fst ?as) \<longrightarrow> distinct (map fst r)" by auto
    show ?thesis using r k True removeAttribute_subset[of "fst (as ! k)" as]
        removeAttribute_distinct[of as "fst (as ! k)"] removeAttributeOf_no_form[OF nf]
      by (auto simp: Let_def)
  next
    case False
    have "drop k as = as ! k # drop (Suc k) as" using k by (simp add: Cons_nth_drop_Suc)
    then have "\<forall>x \<in> set (drop k as). \<not> isEventHandler (fst x)" using False Suc.prems(3) by simp
    from Suc.IH[OF nf _ this] k show ?thesis using False by (auto simp: Let_def)
  qed
qed

lemma removeEventAttributes_no_form:
  "\<not> hasTag [''form''] e \<Longrightarrow>
   removeEventAttributes e = removeEventHandlers e (length (ownAttributes e)) (ownAttributes e)"
  by (simp add: removeEventAttributes_def namedProperty_no_form Let_def)

lemma isDangerous_code: "isDangerous v \<longleftrightarrow>
    list_ex (\<lambda>dangerous. startsWith (trim (toLowerCase v)) dangerous) dangerousAttrs"
  by (simp add: isDangerous_def dangerousAttrs_def)

lemma isDangerous_Nil: "\<not> isDangerous []"
  by (simp add: isDangerous_def trim_def trimEnd_def trimStart_def toLowerCase_def
      startsWith_def)

lemma removeDangerous_no_form:
  assumes nf: "\<not> hasTag [''form''] e"
  shows "\<exists>r. removeDangerous e as n = Some r \<and> set r \<subseteq> set as
           \<and> (distinct (map fst as) \<longrightarrow>
                distinct (map fst r) \<and> (\<forall>v. (n, v) \<in> set r \<longrightarrow> \<not> isDangerous v))"
proof (cases "getAttribute n as")
  case None
  then have "n \<notin> fst ` set as" by (simp add: getAttribute_def map_of_eq_None_iff)
  then have "(n, v) \<notin> set as" for v by force
  moreover have "removeDangerous e as n = Some as"
    using None by (simp add: removeDangerous_def namedProperty_no_form[OF nf])
  ultimately show ?thesis by simp
next
  case (Some w)
  then have w: "map_of as n = Some w" by (simp add: getAttribute_def)
  show ?thesis
  proof (cases "w \<noteq> [] \<and> isDangerous w")
    case True
    then have "removeDangerous e as n = Some (removeAttribute n as)"
      using Some
      by (simp add: removeDangerous_def isDangerous_code Let_def namedProperty_no_form[OF nf]
          removeAttributeOf_no_form[OF nf])
    moreover have "distinct (map fst as) \<Longrightarrow> (n, v) \<notin> set (removeAttribute n as)" for v
      using removeAttribute_absent[of as n] by force
    ultimately show ?thesis
      using removeAttribute_subset[of n as] removeAttribute_distinct[of as n] by auto
  next
    case False
    then have "removeDangerous e as n = Some as"
      using Some
      by (auto simp: removeDangerous_def isDangerous_code Let_def namedProperty_no_form[OF nf])
    moreover have "\<not> isDangerous v" if "distinct (map fst as)" "(n, v) \<in> set as" for v
    proof -
      have "map_of as n = Some v" using that by simp
      then have "v = w" using w by simp
      then show ?thesis using False isDangerous_Nil by auto
    qed
    ultimately show ?thesis by auto
  qed
qed

lemma removeDangerousAttributes_no_form:
  assumes nf: "\<not> hasTag [''form''] e"
  shows "\<exists>r. removeDangerousAttributes e ns as = Some r \<and> set r \<subseteq> set as
           \<and> (distinct (map fst as) \<longrightarrow>
                distinct (map fst r)
                \<and> (\<forall>k v. (k, v) \<in> set r \<longrightarrow> k \<in> set ns \<longrightarrow> \<not> isDangerous v))"
proof (induction ns arbitrary: as)
  case Nil show ?case by simp
next
  case (Cons n ns)
  from removeDangerous_no_form[OF nf, of as n] obtain r1 where
    r1: "removeDangerous e as n = Some r1" "set r1 \<subseteq> set as"
    "distinct (map fst as) \<longrightarrow>
       distinct (map fst r1) \<and> (\<forall>v. (n, v) \<in> set r1 \<longrightarrow> \<not> isDangerous v)"
    by blast
  from Cons.IH[of r1] obtain r where
    r: "removeDangerousAttributes e ns r1 = Some r" "set r \<subseteq> set r1"
    "distinct (map fst r1) \<longrightarrow>
       distinct (map fst r)
       \<and> (\<forall>k v. (k, v) \<in> set r \<longrightarrow> k \<in> set ns \<longrightarrow> \<not> isDangerous v)"
    by blast
  have 1: "removeDangerousAttributes e (n # ns) as = Some r" using r1(1) r(1) by simp
  have 2: "set r \<subseteq> set as" using r1(2) r(2) by blast
  have 3: "distinct (map fst r)
      \<and> (\<forall>k v. (k, v) \<in> set r \<longrightarrow> k \<in> set (n # ns) \<longrightarrow> \<not> isDangerous v)"
    if d: "distinct (map fst as)"
  proof -
    have d1: "distinct (map fst r1)" and s1: "\<forall>v. (n, v) \<in> set r1 \<longrightarrow> \<not> isDangerous v"
      using r1(3) d by blast+
    have "\<not> isDangerous v" if "(k, v) \<in> set r" "k \<in> set (n # ns)" for k v
    proof (cases "k = n")
      case True
      then have "(n, v) \<in> set r1" using that(1) r(2) by blast
      then show ?thesis using s1 by blast
    next
      case False
      then have "k \<in> set ns" using that(2) by simp
      then show ?thesis using r(3) d1 that(1) by blast
    qed
    then show ?thesis using r(3) d1 by blast
  qed
  show ?case using 1 2 3 by blast
qed

lemma sanitizeAttributes_safe:
  assumes "distinct (map fst (ownAttributes e))" and nf: "\<not> hasTag [''form''] e"
  shows "\<exists>r. sanitizeAttributes e = Some r \<and> list_all safeAttribute r \<and> distinct (map fst r)"
proof -
  let ?as = "ownAttributes e"
  from removeEventHandlers_total[OF nf, of "length ?as" ?as]
  obtain r where r: "removeEventHandlers e (length ?as) ?as = Some r"
    "\<forall>x \<in> set r. \<not> isEventHandler (fst x)" "set r \<subseteq> set ?as" "distinct (map fst r)"
    using assms by auto
  from removeDangerousAttributes_no_form[OF nf, of urlAttrs r] r(4) obtain r' where
    r': "removeDangerousAttributes e urlAttrs r = Some r'" "set r' \<subseteq> set r"
    "distinct (map fst r')"
    "\<forall>k v. (k, v) \<in> set r' \<longrightarrow> k \<in> set urlAttrs \<longrightarrow> \<not> isDangerous v"
    by blast
  have "safeAttribute x" if x: "x \<in> set r'" for x
  proof -
    obtain k v where kv: "x = (k, v)" by (cases x)
    have "\<not> isEventHandler k" using x r'(2) r(2) kv by force
    moreover have "\<not> isDangerous v" if "k \<in> set urlAttrs"
      using r'(4) x kv that by blast
    moreover have "[''href'', ''src'', ''action'', ''formaction'', ''data''] = urlAttrs"
      by (simp add: urlAttrs_def)
    ultimately show ?thesis
      unfolding safeAttribute_def isEventHandler_def kv by auto
  qed
  then have "list_all safeAttribute r'" by (simp add: list_all_iff)
  then show ?thesis
    using r(1) r'(1,3) by (simp add: sanitizeAttributes_def removeEventAttributes_no_form[OF nf])
qed

lemma those_map_Some:
  "(\<And>c. c \<in> set cs \<Longrightarrow> \<exists>c'. f c = Some c' \<and> P c') \<Longrightarrow>
   \<exists>cs'. those (map f cs) = Some cs' \<and> list_all P cs'"
proof (induction cs)
  case Nil then show ?case by simp
next
  case (Cons c cs)
  from Cons.prems[of c] obtain c' where c': "f c = Some c'" "P c'" by auto
  from Cons.IH Cons.prems obtain cs' where cs': "those (map f cs) = Some cs'" "list_all P cs'"
    by (metis list.set_intros(2))
  show ?case using c' cs' by simp
qed

lemma removeElements_noTags:
  "\<not> hasTag [tag] n \<Longrightarrow> noTags [tag] (removeElements tag n)"
  by (induction n) (auto simp: list_all_iff)

lemma removeElements_keeps_noTags:
  "noTags ts n \<Longrightarrow> noTags ts (removeElements tag n)"
  by (induction n) (auto simp: list_all_iff)

lemma removeElements_wf: "wfNode n \<Longrightarrow> wfNode (removeElements tag n)"
  by (induction n) (auto simp: list_all_iff)

lemma removeAll_noTags: "list_all (noTags [tag]) (removeAll tag doc)"
  by (auto simp: removeAll_def list_all_iff removeElements_noTags)

lemma removeAll_keeps_noTags:
  "list_all (noTags ts) doc \<Longrightarrow> list_all (noTags ts) (removeAll tag doc)"
  by (auto simp: removeAll_def list_all_iff removeElements_keeps_noTags)

lemma removeAll_wf: "list_all wfNode doc \<Longrightarrow> list_all wfNode (removeAll tag doc)"
  by (auto simp: removeAll_def list_all_iff removeElements_wf)

text \<open>
  Where the sanitizer reaches: in a document without a \<open>template\<close> and without a
  \<open>form\<close> every element is found by \<open>querySelectorAll\<close> and has its three properties,
  and what the sanitizer leaves is safe.
\<close>

lemma sanitizeElements_safe:
  "wfNode n \<Longrightarrow> noTags [''script''] n \<Longrightarrow> noTags [''style''] n \<Longrightarrow>
   noTags [''form'', ''template''] n \<Longrightarrow>
   \<exists>n'. sanitizeElements n = Some n' \<and> safeNode n'"
proof (induction n)
  case (Element t a cs)
  from Element.prems have d: "distinct (map fst (ownAttributes (Element t a cs)))" by simp
  from Element.prems have nf: "\<not> hasTag [''form''] (Element t a cs)" by simp
  from sanitizeAttributes_safe[OF d nf] obtain a' where
    a': "sanitizeAttributes (Element t a cs) = Some a'" "list_all safeAttribute a'" by auto
  have "\<exists>cs'. those (map sanitizeElements cs) = Some cs' \<and> list_all safeNode cs'"
  proof (rule those_map_Some)
    fix c assume c: "c \<in> set cs"
    then show "\<exists>c'. sanitizeElements c = Some c' \<and> safeNode c'"
      using Element.IH[OF c] Element.prems by (auto simp: list_all_iff)
  qed
  then obtain cs' where cs': "those (map sanitizeElements cs) = Some cs'" "list_all safeNode cs'"
    by auto
  show ?case using a' cs' Element.prems by simp
qed simp_all

lemma sanitizeDocument_safe:
  assumes "list_all wfNode doc" and "list_all (noTags [''form'', ''template'']) doc"
  shows "\<exists>doc'. sanitizeDocument doc = Some doc' \<and> list_all safeNode doc'"
  unfolding sanitizeDocument_def
proof (rule those_map_Some)
  let ?d = "removeAll ''style'' (removeAll ''script'' doc)"
  fix c assume c: "c \<in> set ?d"
  have "list_all wfNode ?d" using assms by (simp add: removeAll_wf)
  moreover have "list_all (noTags [''style'']) ?d" by (rule removeAll_noTags)
  moreover have "list_all (noTags [''script'']) ?d"
    by (rule removeAll_keeps_noTags) (rule removeAll_noTags)
  moreover have "list_all (noTags [''form'', ''template'']) ?d"
    by (intro removeAll_keeps_noTags assms)
  ultimately show "\<exists>c'. sanitizeElements c = Some c' \<and> safeNode c'"
    using c sanitizeElements_safe by (auto simp: list_all_iff)
qed

lemma body_safe:
  "list_all safeNode doc \<Longrightarrow> body doc = Some b \<Longrightarrow> list_all safeNode (childNodes b)"
proof -
  assume s: "list_all safeNode doc" and b: "body doc = Some b"
  have fe: "firstElement ns = Some e \<Longrightarrow> e \<in> set ns" for ns e
    by (induction ns rule: firstElement.induct) (auto split: if_splits)
  from b obtain t a cs where e: "firstElement doc = Some (Element t a cs)"
    and f: "find (hasTag [''body'', ''frameset'']) cs = Some b"
    by (auto simp: body_def split: option.splits node.splits if_splits)
  have "safeNode (Element t a cs)" using fe[OF e] s by (auto simp: list_all_iff)
  moreover have "b \<in> set cs" using f by (auto simp: find_Some_iff)
  ultimately have "safeNode b" by (auto simp: list_all_iff)
  then show ?thesis by (cases b) auto
qed

lemma safeSetHTML_safe:
  assumes "\<And>doc. parseFromString env html = Some doc \<Longrightarrow>
             list_all wfNode doc \<and> list_all (noTags [''form'', ''template'']) doc"
  shows "list_all safeNode (childNodes (safeSetHTML env (createElement ''div'') html))"
proof -
  have fb: "list_all safeNode (childNodes (setTextContent (createElement ''div'') s))" for s
    by (simp add: setTextContent_def createElement_def)
  show ?thesis
  proof (cases "html = []")
    case True then show ?thesis by (simp add: safeSetHTML_def createElement_def)
  next
    case False
    show ?thesis
    proof (cases "parseFromString env html")
      case None then show ?thesis using False fb by (simp add: safeSetHTML_def)
    next
      case (Some doc)
      from assms[OF Some] have "list_all wfNode doc" "list_all (noTags [''form'', ''template'']) doc"
        by blast+
      from sanitizeDocument_safe[OF this] obtain doc' where
        d: "sanitizeDocument doc = Some doc'" "list_all safeNode doc'" by auto
      show ?thesis
      proof (cases "body doc'")
        case None then show ?thesis using False Some d fb by (simp add: safeSetHTML_def)
      next
        case (Some b)
        then show ?thesis using False \<open>parseFromString env html = Some doc\<close> d body_safe[OF d(2) Some]
          by (simp add: safeSetHTML_def createElement_def)
      qed
    qed
  qed
qed

lemma htmlToText_dom:
  "hasDocument env \<Longrightarrow> html \<noteq> [] \<Longrightarrow> parseFromString env html = Some doc \<Longrightarrow>
   sanitizeDocument doc = Some doc' \<Longrightarrow> body doc' = Some b \<Longrightarrow>
   htmlToText env html =
     textContent (processBlockElementsForText (processListsForText
       (processCodeBlocksForText (processTablesForText (Element ''div'' [] (childNodes b))))))"
  by (simp add: htmlToText_def safeSetHTML_def createElement_def)

lemma htmlToMarkdown_dom:
  "hasDocument env \<Longrightarrow> html \<noteq> [] \<Longrightarrow> parseFromString env html = Some doc \<Longrightarrow>
   sanitizeDocument doc = Some doc' \<Longrightarrow> body doc' = Some b \<Longrightarrow>
   htmlToMarkdown env html = processChildNodes env ''div'' 0 (childNodes b)"
  by (simp add: htmlToMarkdown_def safeSetHTML_def createElement_def processElementToMarkdown_def)

lemma htmlToText_worker:
  "\<not> hasDocument env \<Longrightarrow> htmlToText env html = stripHtmlTags html"
  by (simp add: htmlToText_def stripHtmlTags_def)

lemma htmlToMarkdown_worker:
  "\<not> hasDocument env \<Longrightarrow> htmlToMarkdown env html = stripHtmlTags html"
  by (simp add: htmlToMarkdown_def stripHtmlTags_def)

lemma body_htmlDocument: "body (htmlDocument h b) = Some (Element ''body'' [] b)"
  by (simp add: body_def htmlDocument_def)

lemma sanitize_scriptDocument:
  "sanitizeDocument scriptDocument = Some (htmlDocument [] [Element ''p'' [] [Text ''hi'']])"
  by code_simp

lemma flatten_p_hi:
  "textContent (processBlockElementsForText (processListsForText
     (processCodeBlocksForText (processTablesForText
       (Element ''div'' [] [Element ''p'' [] [Text ''hi'']]))))) = ''\<newline>hi\<newline>''"
  by code_simp

lemma strip_scriptFragment: "stripHtmlTags scriptFragment = ''hi''"
  by code_simp

lemma markdown_p_hi:
  "processChildNodes env ''div'' 0 [Element ''p'' [] [Text ''hi'']] = ''hi\<newline>\<newline>''"
  by (simp add: toLowerCase_def toLowerChar_def capitalLetters_def smallLetters_def
      markdownConverters_def)

lemma scriptFragment_text:
  assumes "parseFromString env scriptFragment = Some scriptDocument"
  shows "htmlToText env scriptFragment = (if hasDocument env then ''\<newline>hi\<newline>'' else ''hi'')"
proof (cases "hasDocument env")
  case True
  have ne: "scriptFragment \<noteq> []" by (simp add: scriptFragment_def)
  show ?thesis
    using htmlToText_dom[OF True ne assms sanitize_scriptDocument body_htmlDocument]
      flatten_p_hi True by simp
next
  case False
  then show ?thesis using htmlToText_worker strip_scriptFragment by simp
qed

lemma scriptFragment_markdown:
  assumes "parseFromString env scriptFragment = Some scriptDocument"
  shows "htmlToMarkdown env scriptFragment = (if hasDocument env then ''hi\<newline>\<newline>'' else ''hi'')"
proof (cases "hasDocument env")
  case True
  have ne: "scriptFragment \<noteq> []" by (simp add: scriptFragment_def)
  show ?thesis
    using htmlToMarkdown_dom[OF True ne assms sanitize_scriptDocument body_htmlDocument]
      markdown_p_hi True by simp
next
  case False
  then show ?thesis using htmlToMarkdown_worker strip_scriptFragment by simp
qed

lemma hi_alert:
  "includesStr ''\<newline>hi\<newline>'' ''hi'' \<and> \<not> includesStr ''\<newline>hi\<newline>'' ''alert''
   \<and> includesStr ''hi\<newline>\<newline>'' ''hi'' \<and> \<not> includesStr ''hi\<newline>\<newline>'' ''alert''
   \<and> includesStr ''hi'' ''hi'' \<and> \<not> includesStr ''hi'' ''alert''"
  by code_simp

text \<open>
  The sanitizer within its reach. Whatever well-formed document without a \<open>template\<close>
  and without a \<open>form\<close> the parser returns, the document that \<open>sanitizeDocument\<close>
  leaves and the nodes that \<open>safeSetHTML\<close> puts into the target element are safe. And
  the fragment \<open><script>alert(1)</script><p>hi</p>\<close>, rendered to text or to Markdown,
  contains \<open>hi\<close> and does not contain \<open>alert\<close>.
\<close>

lemma sanitizer_reach:
  "(list_all wfNode doc \<and> list_all (noTags [''form'', ''template'']) doc \<longrightarrow>
      (\<exists>doc'. sanitizeDocument doc = Some doc' \<and> list_all safeNode doc'))
   \<and> ((\<forall>d. parseFromString env html = Some d \<longrightarrow>
           list_all wfNode d \<and> list_all (noTags [''form'', ''template'']) d) \<longrightarrow>
        list_all safeNode (childNodes (safeSetHTML env (createElement ''div'') html)))
   \<and> (parseFromString env scriptFragment = Some scriptDocument \<longrightarrow>
        includesStr (htmlToText env scriptFragment) ''hi''
        \<and> \<not> includesStr (htmlToText env scriptFragment) ''alert''
        \<and> includesStr (htmlToMarkdown env scriptFragment) ''hi''
        \<and> \<not> includesStr (htmlToMarkdown env scriptFragment) ''alert'')"
proof (intro conjI impI)
  assume "list_all wfNode doc \<and> list_all (noTags [''form'', ''template'']) doc"
  then show "\<exists>doc'. sanitizeDocument doc = Some doc' \<and> list_all safeNode doc'"
    by (intro sanitizeDocument_safe) blast+
next
  assume "\<forall>d. parseFromString env html = Some d \<longrightarrow>
           list_all wfNode d \<and> list_all (noTags [''form'', ''template'']) d"
  then show "list_all safeNode (childNodes (safeSetHTML env (createElement ''div'') html))"
    by (intro safeSetHTML_safe) blast
next
  assume p: "parseFromString env scriptFragment = Some scriptDocument"
  show "includesStr (htmlToText env scriptFragment) ''hi''"
    using scriptFragment_text[OF p] hi_alert by (cases "hasDocument env") simp_all
  show "\<not> includesStr (htmlToText env scriptFragment) ''alert''"
    using scriptFragment_text[OF p] hi_alert by (cases "hasDocument env") simp_all
  show "includesStr (htmlToMarkdown env scriptFragment) ''hi''"
    using scriptFragment_markdown[OF p] hi_alert by (cases "hasDocument env") simp_all
  show "\<not> includesStr (htmlToMarkdown env scriptFragment) ''alert''"
    using scriptFragment_markdown[OF p] hi_alert by (cases "hasDocument env") simp_all
qed

lemma sanitizer_reach_example:
  "list_all safeNode (the (sanitizeDocument dirtyDocument))
   \<and> list_all safeNode (childNodes (safeSetHTML examplePage (createElement ''div'') dirtyFragment))
   \<and> childNodes (safeSetHTML examplePage (createElement ''div'') dirtyFragment)
       = [Element ''a'' [] [Text ''go'']]
   \<and> htmlToText examplePage scriptFragment = ''\<newline>hi\<newline>''
   \<and> htmlToMarkdown examplePage scriptFragment = ''hi\<newline>\<newline>''
   \<and> htmlToText exampleWorker scriptFragment = ''hi''"
  by code_simp

text \<open>
  C1 says that, whatever the fragment, the tree which \<open>safeSetHTML\<close> builds from it
  holds no \<open>script\<close> and no \<open>style\<close> element, no attribute whose name starts with
  \<open>on\<close> and no \<open>href\<close>, \<open>src\<close>, \<open>action\<close>, \<open>formaction\<close> or \<open>data\<close> attribute with
  one of the four schemes. The code does not keep this at two kinds of fragment, each
  of which leaves in the target element what the sanitizer is there to remove.

  The content of a \<open>template\<close>: for \<open><p>hi</p><template><script>alert(1)</script><img
  src=javascript:alert(2) onerror=alert(3)></template>\<close> the sanitizer changes nothing,
  and \<open>safeSetHTML\<close> moves the \<open>template\<close> into the target with the \<open>script\<close>, the
  \<open>onerror\<close> attribute and the \<open>javascript:\<close> source in its content.

  A form with a control named \<open>attributes\<close>: for \<open><form onmouseover=alert(1)><input
  name=attributes></form>\<close> the loop over \<open>element.attributes\<close> does not run on the
  form, which keeps its \<open>onmouseover\<close> attribute in the target.
\<close>

theorem sanitizer_failing_inputs:
  "parseFromString examplePage templateFragment = Some templateDocument
   \<and> sanitizeDocument templateDocument = Some templateDocument
   \<and> childNodes (safeSetHTML examplePage (createElement ''div'') templateFragment)
       = [Element ''p'' [] [Text ''hi''],
          Template []
            [Element ''script'' [] [Text ''alert(1)''],
             Element ''img'' [(''src'', ''javascript:alert(2)''), (''onerror'', ''alert(3)'')] []]]
   \<and> \<not> list_all safeNode
         (childNodes (safeSetHTML examplePage (createElement ''div'') templateFragment))
   \<and> parseFromString examplePage formFragment = Some formDocument
   \<and> sanitizeDocument formDocument = Some formDocument
   \<and> childNodes (safeSetHTML examplePage (createElement ''div'') formFragment)
       = [Element ''form'' [(''onmouseover'', ''alert(1)'')]
            [Element ''input'' [(''name'', ''attributes'')] []]]
   \<and> \<not> list_all safeNode
         (childNodes (safeSetHTML examplePage (createElement ''div'') formFragment))"
  by code_simp

section \<open>What the URL validator accepts\<close>

lemma split_not_Nil: "split c s \<noteq> []"
  by (induction s) (auto split: list.splits)

lemma split_append: "split c (a @ c # b) = split c a @ split c b"
proof (induction a)
  case Nil then show ?case by simp
next
  case (Cons x a)
  obtain l ls where "split c a = l # ls" using split_not_Nil by (cases "split c a") auto
  then show ?case using Cons by simp
qed

lemma join_Cons: "ls \<noteq> [] \<Longrightarrow> join sep (l # ls) = l @ sep @ join sep ls"
  by (cases ls) auto

lemma join_Cons_Cons: "join sep ((x # l) # ls) = x # join sep (l # ls)"
  by (cases ls) auto

lemma join_split: "join [c] (split c s) = s"
proof (induction s)
  case Nil then show ?case by simp
next
  case (Cons x s)
  obtain l ls where l: "split c s = l # ls" using split_not_Nil by (cases "split c s") auto
  show ?case
  proof (cases "x = c")
    case True then show ?thesis using Cons split_not_Nil by (simp add: join_Cons)
  next
    case False then show ?thesis using Cons l by (simp add: join_Cons_Cons)
  qed
qed

lemma join_append:
  "xs \<noteq> [] \<Longrightarrow> ys \<noteq> [] \<Longrightarrow> join sep (xs @ ys) = join sep xs @ sep @ join sep ys"
proof (induction xs)
  case Nil then show ?case by simp
next
  case (Cons x xs)
  show ?case
  proof (cases "xs = []")
    case True then show ?thesis using Cons.prems by (simp add: join_Cons)
  next
    case False
    then show ?thesis using Cons by (simp add: join_Cons)
  qed
qed

lemma endsWith_isSubdomainOf: "endsWith h (''.'' @ d) \<longleftrightarrow> isSubdomainOf h d"
proof
  assume "endsWith h (''.'' @ d)"
  then obtain p where h: "h = p @ CHR ''.'' # d" by (auto simp: endsWith_def suffix_def)
  have "labels h = labels p @ labels d" unfolding labels_def h by (rule split_append)
  moreover have "labels p \<noteq> []" by (simp add: labels_def split_not_Nil)
  ultimately show "isSubdomainOf h d" by (simp add: isSubdomainOf_def)
next
  assume s: "isSubdomainOf h d"
  define n where "n = length (labels h) - length (labels d)"
  have n: "0 < n" and dr: "drop n (labels h) = labels d"
    using s by (auto simp: isSubdomainOf_def n_def)
  have tk: "take n (labels h) \<noteq> []" using n s by (auto simp: isSubdomainOf_def n_def)
  have ld: "labels d \<noteq> []" by (simp add: labels_def split_not_Nil)
  have "h = join ''.'' (labels h)" by (simp add: labels_def join_split)
  also have "labels h = take n (labels h) @ labels d" using dr by (metis append_take_drop_id)
  also have "join ''.'' (take n (labels h) @ labels d)
      = join ''.'' (take n (labels h)) @ ''.'' @ join ''.'' (labels d)"
    by (rule join_append[OF tk ld])
  also have "join ''.'' (labels d) = d" by (simp add: labels_def join_split)
  finally have "h = join ''.'' (take n (labels h)) @ ''.'' @ d" .
  then show "endsWith h (''.'' @ d)" unfolding endsWith_def suffix_def by (rule exI)
qed

lemma isValidUrl_Str:
  "isValidUrl env (Str s) =
     (case newURL env s of
        None \<Rightarrow> False
      | Some u \<Rightarrow> (schemeIs u ''http'' \<or> schemeIs u ''https'') \<and> hostAllowed (hostname u))"
  by (auto simp: isValidUrl_def schemeIs_def hostAllowed_def allowedDomains_def
      endsWith_isSubdomainOf[symmetric] split: option.splits)

lemma evil_not_allowed: "\<not> hostAllowed ''evil.com''"
  by code_simp

lemma sub_claude_allowed: "hostAllowed ''sub.claude.ai''"
  by code_simp

text \<open>
  C4. \<open>isValidUrl\<close> is false for a value that is not a string and for a string that
  the URL parser rejects; for a string that parses it is true exactly when the scheme
  is \<open>http\<close> or \<open>https\<close> and the host is one of the six allowed hosts or a subdomain
  of one. With the records that the URL parser returns for them,
  \<open>https://evil.com\<close> and \<open>javascript:alert(1)\<close> are invalid and
  \<open>https://sub.claude.ai/x\<close> is valid.
\<close>

theorem isValidUrl_allow_list:
  "((\<forall>s. v \<noteq> Str s) \<longrightarrow> \<not> isValidUrl env v)
   \<and> (newURL env s = None \<longrightarrow> \<not> isValidUrl env (Str s))
   \<and> (newURL env s = Some u \<longrightarrow>
        (isValidUrl env (Str s) \<longleftrightarrow>
           (schemeIs u ''http'' \<or> schemeIs u ''https'') \<and> hostAllowed (hostname u)))
   \<and> (newURL env ''https://evil.com'' = Some \<lparr> protocol = ''https:'', hostname = ''evil.com'' \<rparr>
        \<longrightarrow> \<not> isValidUrl env (Str ''https://evil.com''))
   \<and> (newURL env ''https://sub.claude.ai/x''
          = Some \<lparr> protocol = ''https:'', hostname = ''sub.claude.ai'' \<rparr>
        \<longrightarrow> isValidUrl env (Str ''https://sub.claude.ai/x''))
   \<and> (newURL env ''javascript:alert(1)'' = Some \<lparr> protocol = ''javascript:'', hostname = [] \<rparr>
        \<longrightarrow> \<not> isValidUrl env (Str ''javascript:alert(1)''))"
proof (intro conjI impI)
  assume "\<forall>s. v \<noteq> Str s"
  then show "\<not> isValidUrl env v" by (cases v) (simp_all add: isValidUrl_def)
next
  assume "newURL env s = None"
  then show "\<not> isValidUrl env (Str s)" by (simp add: isValidUrl_Str)
next
  assume "newURL env s = Some u"
  then show "isValidUrl env (Str s) \<longleftrightarrow>
     (schemeIs u ''http'' \<or> schemeIs u ''https'') \<and> hostAllowed (hostname u)"
    by (simp add: isValidUrl_Str)
next
  assume "newURL env ''https://evil.com'' = Some \<lparr> protocol = ''https:'', hostname = ''evil.com'' \<rparr>"
  then show "\<not> isValidUrl env (Str ''https://evil.com'')"
    using evil_not_allowed by (simp add: isValidUrl_Str)
next
  assume "newURL env ''https://sub.claude.ai/x''
          = Some \<lparr> protocol = ''https:'', hostname = ''sub.claude.ai'' \<rparr>"
  then show "isValidUrl env (Str ''https://sub.claude.ai/x'')"
    using sub_claude_allowed by (simp add: isValidUrl_Str schemeIs_def)
next
  assume "newURL env ''javascript:alert(1)'' = Some \<lparr> protocol = ''javascript:'', hostname = [] \<rparr>"
  then show "\<not> isValidUrl env (Str ''javascript:alert(1)'')"
    by (simp add: isValidUrl_Str schemeIs_def)
qed

lemma exampleURL_values:
  "newURL examplePage ''no url'' = None"
  "newURL examplePage ''https://chatgpt.com/c/1''
     = Some \<lparr> protocol = ''https:'', hostname = ''chatgpt.com'' \<rparr>"
  "newURL examplePage ''https://evil.com'' = Some \<lparr> protocol = ''https:'', hostname = ''evil.com'' \<rparr>"
  "newURL examplePage ''https://sub.claude.ai/x''
     = Some \<lparr> protocol = ''https:'', hostname = ''sub.claude.ai'' \<rparr>"
  "newURL examplePage ''javascript:alert(1)'' = Some \<lparr> protocol = ''javascript:'', hostname = [] \<rparr>"
  by (simp_all add: examplePage_def exampleURL_def)

lemma chatgpt_allowed:
  "schemeIs \<lparr> protocol = ''https:'', hostname = ''chatgpt.com'' \<rparr> ''https''
   \<and> hostAllowed (hostname \<lparr> protocol = ''https:'', hostname = ''chatgpt.com'' \<rparr>)"
  by code_simp

theorem isValidUrl_allow_list_witness:
  "\<not> isValidUrl examplePage (Number 5)
   \<and> newURL examplePage ''no url'' = None
   \<and> \<not> isValidUrl examplePage (Str ''no url'')
   \<and> newURL examplePage ''https://chatgpt.com/c/1''
       = Some \<lparr> protocol = ''https:'', hostname = ''chatgpt.com'' \<rparr>
   \<and> isValidUrl examplePage (Str ''https://chatgpt.com/c/1'')
   \<and> \<not> isValidUrl examplePage (Str ''https://evil.com'')
   \<and> isValidUrl examplePage (Str ''https://sub.claude.ai/x'')
   \<and> \<not> isValidUrl examplePage (Str ''javascript:alert(1)'')"
  using isValidUrl_allow_list[of "Number 5" examplePage "''no url''"]
    isValidUrl_allow_list[of "Number 5" examplePage "''https://chatgpt.com/c/1''"
      "\<lparr> protocol = ''https:'', hostname = ''chatgpt.com'' \<rparr>"]
    exampleURL_values chatgpt_allowed
  by simp

section \<open>What the assembler returns\<close>

lemma messageToText_block: "messageToText env message options = block env message"
  by (simp add: messageToText_def block_def)

lemma forEachMessage_acc:
  "forEachMessage env conversationData options index messages acc
     = acc @ forEachMessage env conversationData options index messages []"
proof (induction messages arbitrary: index acc)
  case Nil show ?case by simp
next
  case (Cons m ms)
  show ?case
    using Cons.IH[of "Suc index" "acc @ messageToText env m options @ ''\<newline>\<newline>''"]
      Cons.IH[of "Suc index" "acc @ messageToText env m options"]
      Cons.IH[of "Suc index" "messageToText env m options @ ''\<newline>\<newline>''"]
      Cons.IH[of "Suc index" "messageToText env m options"]
    by (simp add: Let_def)
qed

lemma forEachMessage_join:
  "length conversationData = index + length messages \<Longrightarrow>
   forEachMessage env conversationData options index messages []
     = join ''\<newline>\<newline>'' (map (block env) messages)"
proof (induction messages arbitrary: index)
  case Nil show ?case by simp
next
  case (Cons m ms)
  have len: "length conversationData = Suc index + length ms" using Cons.prems by simp
  note IH = Cons.IH[OF len]
  show ?case
  proof (cases "ms = []")
    case True
    then show ?thesis using Cons.prems by (simp add: Let_def messageToText_block)
  next
    case False
    then have lt: "int index < int (length conversationData) - 1" using Cons.prems
      by (cases ms) auto
    have "forEachMessage env conversationData options index (m # ms) []
        = forEachMessage env conversationData options (Suc index) ms
            (block env m @ ''\<newline>\<newline>'')"
      using lt by (simp add: Let_def messageToText_block)
    also have "\<dots> = (block env m @ ''\<newline>\<newline>'')
        @ forEachMessage env conversationData options (Suc index) ms []"
      by (rule forEachMessage_acc)
    finally show ?thesis using IH False by (cases ms) auto
  qed
qed

lemma toText_join:
  "toText env conversationData options =
     trim ((if toBoolean (url options) \<and> isValidUrl env (url options)
            then preamble (toStr (url options)) else [])
           @ join ''\<newline>\<newline>'' (map (block env) conversationData))"
proof -
  have "forEachMessage env conversationData options 0 conversationData acc
      = acc @ join ''\<newline>\<newline>'' (map (block env) conversationData)" for acc
    using forEachMessage_acc[of env conversationData options 0 conversationData acc]
      forEachMessage_join[of conversationData 0 conversationData env options]
    by simp
  then show ?thesis by (simp add: toText_def preamble_def Let_def)
qed

lemma processConversation_join:
  "processConversation env conversationData format options =
     trim ((if toBoolean (orDefault (url options) (Str []))
               \<and> isValidUrl env (orDefault (url options) (Str []))
            then preamble (toStr (orDefault (url options) (Str []))) else [])
           @ join ''\<newline>\<newline>'' (map (block env) conversationData))"
  by (simp add: processConversation_def toText_join)

lemma isValidUrl_not_Str: "(\<And>s. u \<noteq> Str s) \<Longrightarrow> \<not> isValidUrl env u"
  by (cases u) (auto simp: isValidUrl_def)

lemma processConversation_no_preamble:
  "\<not> (toBoolean u \<and> isValidUrl env u) \<Longrightarrow>
   processConversation env conversationData format (options \<lparr> url := u \<rparr>)
     = trim (join ''\<newline>\<newline>'' (map (block env) conversationData))"
  by (cases "u = Undefined") (auto simp: processConversation_join orDefault_def)

lemma processConversation_preamble:
  "s \<noteq> [] \<Longrightarrow> isValidUrl env (Str s) \<Longrightarrow>
   processConversation env conversationData format (options \<lparr> url := Str s \<rparr>)
     = trim (''chat url: '' @ s @ ''\<newline>\<newline>''
             @ join ''\<newline>\<newline>'' (map (block env) conversationData))"
  by (simp add: processConversation_join orDefault_def preamble_def)

text \<open>
  C7. When \<open>options.url\<close> is empty, is not a string, does not parse, or has a host that
  is not on the allow-list, the call returns what it returns with no \<open>url\<close> at all:
  the rendered blocks, joined and trimmed, with no preamble line. A value is returned
  in every case: nothing is raised. When \<open>options.url\<close> is a non-empty string that
  \<open>isValidUrl\<close> accepts, and only then, the line \<open>chat url: \<close>, the URL and a blank
  line stand before the joined blocks.
\<close>

theorem url_preamble:
  "(\<not> (toBoolean u \<and> isValidUrl env u) \<longrightarrow>
      processConversation env conversationData format (options \<lparr> url := u \<rparr>)
        = processConversation env conversationData format (options \<lparr> url := Undefined \<rparr>))
   \<and> processConversation env conversationData format (options \<lparr> url := Str [] \<rparr>)
        = processConversation env conversationData format (options \<lparr> url := Undefined \<rparr>)
   \<and> ((\<forall>s. u \<noteq> Str s) \<longrightarrow>
        processConversation env conversationData format (options \<lparr> url := u \<rparr>)
          = processConversation env conversationData format (options \<lparr> url := Undefined \<rparr>))
   \<and> (newURL env s = None \<longrightarrow>
        processConversation env conversationData format (options \<lparr> url := Str s \<rparr>)
          = processConversation env conversationData format (options \<lparr> url := Undefined \<rparr>))
   \<and> (newURL env s = Some w \<and> \<not> hostAllowed (hostname w) \<longrightarrow>
        processConversation env conversationData format (options \<lparr> url := Str s \<rparr>)
          = processConversation env conversationData format (options \<lparr> url := Undefined \<rparr>))
   \<and> processConversation env conversationData format (options \<lparr> url := Undefined \<rparr>)
        = trim (join ''\<newline>\<newline>'' (map (block env) conversationData))
   \<and> (s \<noteq> [] \<and> isValidUrl env (Str s) \<longrightarrow>
        processConversation env conversationData format (options \<lparr> url := Str s \<rparr>)
          = trim (''chat url: '' @ s @ ''\<newline>\<newline>''
                  @ join ''\<newline>\<newline>'' (map (block env) conversationData)))"
proof -
  have none: "processConversation env conversationData format (options \<lparr> url := Undefined \<rparr>)
        = trim (join ''\<newline>\<newline>'' (map (block env) conversationData))"
    by (rule processConversation_no_preamble) simp
  have invalid: "processConversation env conversationData format (options \<lparr> url := v \<rparr>)
        = processConversation env conversationData format (options \<lparr> url := Undefined \<rparr>)"
    if "\<not> (toBoolean v \<and> isValidUrl env v)" for v
    unfolding none using that by (rule processConversation_no_preamble)
  show ?thesis
  proof (intro conjI impI)
    assume "\<not> (toBoolean u \<and> isValidUrl env u)"
    then show "processConversation env conversationData format (options \<lparr> url := u \<rparr>)
        = processConversation env conversationData format (options \<lparr> url := Undefined \<rparr>)"
      by (rule invalid)
  next
    show "processConversation env conversationData format (options \<lparr> url := Str [] \<rparr>)
        = processConversation env conversationData format (options \<lparr> url := Undefined \<rparr>)"
      by (rule invalid) simp
  next
    assume "\<forall>s. u \<noteq> Str s"
    then have "\<not> isValidUrl env u" by (intro isValidUrl_not_Str) blast
    then show "processConversation env conversationData format (options \<lparr> url := u \<rparr>)
        = processConversation env conversationData format (options \<lparr> url := Undefined \<rparr>)"
      by (intro invalid) blast
  next
    assume "newURL env s = None"
    then have "\<not> isValidUrl env (Str s)" by (simp add: isValidUrl_Str)
    then show "processConversation env conversationData format (options \<lparr> url := Str s \<rparr>)
        = processConversation env conversationData format (options \<lparr> url := Undefined \<rparr>)"
      by (intro invalid) blast
  next
    assume "newURL env s = Some w \<and> \<not> hostAllowed (hostname w)"
    then have "\<not> isValidUrl env (Str s)" by (simp add: isValidUrl_Str)
    then show "processConversation env conversationData format (options \<lparr> url := Str s \<rparr>)
        = processConversation env conversationData format (options \<lparr> url := Undefined \<rparr>)"
      by (intro invalid) blast
  next
    show "processConversation env conversationData format (options \<lparr> url := Undefined \<rparr>)
        = trim (join ''\<newline>\<newline>'' (map (block env) conversationData))"
      by (rule none)
  next
    assume "s \<noteq> [] \<and> isValidUrl env (Str s)"
    then show "processConversation env conversationData format (options \<lparr> url := Str s \<rparr>)
          = trim (''chat url: '' @ s @ ''\<newline>\<newline>''
                  @ join ''\<newline>\<newline>'' (map (block env) conversationData))"
      by (intro processConversation_preamble) simp_all
  qed
qed

lemma evil_host: "\<not> hostAllowed (hostname \<lparr> protocol = ''https:'', hostname = ''evil.com'' \<rparr>)"
  using evil_not_allowed by simp

lemma chatgpt_valid: "isValidUrl examplePage (Str ''https://chatgpt.com/c/1'')"
  using exampleURL_values(2) chatgpt_allowed by (simp add: isValidUrl_Str)

theorem url_preamble_witness:
  "processConversation examplePage [hiMessage] (Str ''text'') (noOptions \<lparr> url := Number 7 \<rparr>)
     = processConversation examplePage [hiMessage] (Str ''text'') (noOptions \<lparr> url := Undefined \<rparr>)
   \<and> processConversation examplePage [hiMessage] (Str ''text'') (noOptions \<lparr> url := Str ''no url'' \<rparr>)
     = processConversation examplePage [hiMessage] (Str ''text'') (noOptions \<lparr> url := Undefined \<rparr>)
   \<and> processConversation examplePage [hiMessage] (Str ''text'')
       (noOptions \<lparr> url := Str ''https://evil.com'' \<rparr>)
     = processConversation examplePage [hiMessage] (Str ''text'') (noOptions \<lparr> url := Undefined \<rparr>)
   \<and> processConversation examplePage [hiMessage] (Str ''text'')
       (noOptions \<lparr> url := Str ''https://chatgpt.com/c/1'' \<rparr>)
     = trim (''chat url: '' @ ''https://chatgpt.com/c/1'' @ ''\<newline>\<newline>''
             @ join ''\<newline>\<newline>'' (map (block examplePage) [hiMessage]))"
  using url_preamble[of "Number 7" examplePage "[hiMessage]" "Str ''text''" noOptions "''no url''"]
    url_preamble[of "Number 7" examplePage "[hiMessage]" "Str ''text''" noOptions
      "''https://evil.com''" "\<lparr> protocol = ''https:'', hostname = ''evil.com'' \<rparr>"]
    url_preamble[of "Number 7" examplePage "[hiMessage]" "Str ''text''" noOptions
      "''https://chatgpt.com/c/1''"]
    exampleURL_values evil_host chatgpt_valid
  by simp

text \<open>
  C8. The output of \<open>processConversation\<close> is the same with \<open>includeTimestamps\<close> true
  and with \<open>includeTimestamps\<close> false, and the same for any two values of it.
\<close>

theorem includeTimestamps_inert:
  "processConversation env conversationData format (options \<lparr> includeTimestamps := Boolean True \<rparr>)
     = processConversation env conversationData format
         (options \<lparr> includeTimestamps := Boolean False \<rparr>)
   \<and> processConversation env conversationData format (options \<lparr> includeTimestamps := a \<rparr>)
     = processConversation env conversationData format (options \<lparr> includeTimestamps := b \<rparr>)"
  by (simp add: processConversation_join)

text \<open>
  C10. \<open>processConversation\<close> returns the same string for any two values of its
  \<open>format\<close> argument; for \<open>'markdown'\<close> too it is the result of \<open>toText\<close>. On the
  message \<open><b>Hi</b>\<close> with the format \<open>'markdown'\<close> the output is the text rendering
  \<open>User:\<close>, newline, \<open>Hi\<close>, and the \<open>**Hi**\<close> of \<open>htmlToMarkdown\<close> is not in it.
\<close>

theorem format_ignored:
  "processConversation env conversationData format options
     = processConversation env conversationData format' options
   \<and> processConversation env conversationData (Str ''markdown'') options
     = toText env conversationData
         \<lparr> includeTimestamps = orDefault (includeTimestamps options) (Boolean False),
           includeMetadata = orDefault (includeMetadata options) (Boolean True),
           platform = orDefault (platform options) (Str ''unknown''),
           url = orDefault (url options) (Str []) \<rparr>
   \<and> processConversation examplePage [boldMessage] (Str ''markdown'') noOptions = ''User:\<newline>Hi''
   \<and> htmlToMarkdown examplePage (content boldMessage) = ''**Hi**''"
proof (intro conjI)
  show "processConversation env conversationData format options
     = processConversation env conversationData format' options"
    by (simp add: processConversation_def)
  show "processConversation env conversationData (Str ''markdown'') options
     = toText env conversationData
         \<lparr> includeTimestamps = orDefault (includeTimestamps options) (Boolean False),
           includeMetadata = orDefault (includeMetadata options) (Boolean True),
           platform = orDefault (platform options) (Str ''unknown''),
           url = orDefault (url options) (Str []) \<rparr>"
    by (simp add: processConversation_def)
  show "processConversation examplePage [boldMessage] (Str ''markdown'') noOptions = ''User:\<newline>Hi''"
    by code_simp
  show "htmlToMarkdown examplePage (content boldMessage) = ''**Hi**''"
    by code_simp
qed

lemma forEachStep_fold:
  "i \<le> length heap \<Longrightarrow> n = length heap - i \<Longrightarrow>
   foldl (forEachStep env options) (acc, heap) [i..<length heap]
     = (forEachMessage env heap options i (drop i heap) acc, heap)"
proof (induction n arbitrary: i acc)
  case 0
  then show ?case by simp
next
  case (Suc n)
  then have i: "i < length heap" by simp
  have up: "[i..<length heap] = i # [Suc i..<length heap]" using i by (rule upt_conv_Cons)
  have dr: "drop i heap = heap ! i # drop (Suc i) heap" using i by (simp add: Cons_nth_drop_Suc)
  have n: "n = length heap - Suc i" using Suc.prems by simp
  have le: "Suc i \<le> length heap" using i by simp
  show ?case
    unfolding up dr
    using Suc.IH[OF le n]
    by (simp add: forEachStep_def messageToText_st_def messageToText_def Let_def)
qed

text \<open>
  C9. A call of the assembler leaves the caller's array of message records as it was:
  the array after \<open>processConversation\<close> is the array before it, so every message has
  the \<open>role\<close> and the \<open>content\<close> it had. The string returned is that of the
  functions above.
\<close>

theorem messages_unchanged:
  "snd (processConversation_st env format options heap) = heap
   \<and> map role (snd (processConversation_st env format options heap)) = map role heap
   \<and> map content (snd (processConversation_st env format options heap)) = map content heap
   \<and> fst (processConversation_st env format options heap)
       = processConversation env heap format options"
proof -
  have "foldl (forEachStep env opts) (acc, heap) [0..<length heap]
      = (forEachMessage env heap opts 0 heap acc, heap)" for opts acc
    using forEachStep_fold[of 0 heap "length heap" env opts acc] by simp
  then have "toText_st env opts heap = (toText env heap opts, heap)" for opts
    by (simp add: toText_st_def toText_def Let_def)
  then show ?thesis by (simp add: processConversation_st_def processConversation_def)
qed

section \<open>The separator between the blocks\<close>

lemma trimStart_append:
  "\<exists>c \<in> set x. \<not> isWhiteSpace c \<Longrightarrow> trimStart (x @ y) = trimStart x @ y"
  unfolding trimStart_def by (erule bexE) (rule dropWhile_append1)

lemma trimEnd_append:
  "\<exists>c \<in> set y. \<not> isWhiteSpace c \<Longrightarrow> trimEnd (x @ y) = x @ trimEnd y"
proof -
  assume "\<exists>c \<in> set y. \<not> isWhiteSpace c"
  then obtain c where "c \<in> set (rev y)" "\<not> isWhiteSpace c" by auto
  then have "dropWhile isWhiteSpace (rev y @ rev x) = dropWhile isWhiteSpace (rev y) @ rev x"
    by (rule dropWhile_append1)
  then show ?thesis by (simp add: trimEnd_def)
qed

lemma colon_not_space: "\<not> isWhiteSpace CHR '':''"
  by (simp add: isWhiteSpace_def)

lemma block_visible: "\<exists>c \<in> set (block env m). \<not> isWhiteSpace c"
  using colon_not_space by (auto simp: block_def)

lemma join_middle:
  "join sep (x # xs @ [y]) = x @ sep @ concat (map (\<lambda>b. b @ sep) xs) @ y"
proof (induction xs arbitrary: x)
  case Nil show ?case by simp
next
  case (Cons a xs)
  have "join sep (x # (a # xs) @ [y]) = x @ sep @ join sep (a # xs @ [y])" by simp
  then show ?case using Cons.IH[of a] by simp
qed

lemma toText_separators:
  assumes "conversationData = first # middle @ [final]"
  shows "toText env conversationData options =
     trimStart ((if toBoolean (url options) \<and> isValidUrl env (url options)
                 then preamble (toStr (url options)) else []) @ block env first)
     @ ''\<newline>\<newline>'' @ concat (map (\<lambda>m. block env m @ ''\<newline>\<newline>'') middle)
     @ trimEnd (block env final)"
proof -
  let ?p = "if toBoolean (url options) \<and> isValidUrl env (url options)
            then preamble (toStr (url options)) else []"
  let ?mid = "concat (map (\<lambda>m. block env m @ ''\<newline>\<newline>'') middle)"
  have j: "join ''\<newline>\<newline>'' (map (block env) conversationData)
      = block env first @ ''\<newline>\<newline>'' @ ?mid @ block env final"
    unfolding assms using join_middle[of "''\<newline>\<newline>''" "block env first" "map (block env) middle" "block env final"]
    by (simp add: comp_def)
  have v1: "\<exists>c \<in> set (?p @ block env first). \<not> isWhiteSpace c" using block_visible[of env first] by auto
  have v2: "\<exists>c \<in> set (block env final). \<not> isWhiteSpace c" by (rule block_visible)
  have "toText env conversationData options
      = trim ((?p @ block env first) @ (''\<newline>\<newline>'' @ ?mid) @ block env final)"
    unfolding toText_join j by simp
  also have "\<dots> = trimEnd (trimStart (?p @ block env first) @ (''\<newline>\<newline>'' @ ?mid) @ block env final)"
    unfolding trim_def using trimStart_append[OF v1] by simp
  also have "\<dots> = (trimStart (?p @ block env first) @ ''\<newline>\<newline>'' @ ?mid) @ trimEnd (block env final)"
    using trimEnd_append[OF v2, of "trimStart (?p @ block env first) @ ''\<newline>\<newline>'' @ ?mid"] by simp
  finally show ?thesis by simp
qed

lemma split_join2:
  "bs \<noteq> [] \<Longrightarrow> split c (join [c, c] bs) = join [[]] (map (split c) bs)"
proof (induction bs)
  case Nil then show ?case by simp
next
  case (Cons b bs)
  show ?case
  proof (cases "bs = []")
    case True then show ?thesis by simp
  next
    case False
    have "join [c, c] (b # bs) = b @ c # (c # join [c, c] bs)"
      using False by (simp add: join_Cons)
    then have "split c (join [c, c] (b # bs)) = split c b @ split c (c # join [c, c] bs)"
      by (simp only: split_append)
    also have "\<dots> = split c b @ [[]] @ split c (join [c, c] bs)" by simp
    also have "\<dots> = split c b @ [[]] @ join [[]] (map (split c) bs)"
      using Cons.IH[OF False] by simp
    also have "\<dots> = join [[]] (map (split c) (b # bs))"
      using False by (simp add: join_Cons)
    finally show ?thesis .
  qed
qed

lemma trim_fixed:
  assumes "trim b = b"
  shows "trimStart b = b" and "trimEnd b = b"
proof -
  have l1: "length (trimEnd (trimStart b)) \<le> length (trimStart b)"
    by (simp add: trimEnd_def length_dropWhile_le[of isWhiteSpace "rev (trimStart b)", simplified])
  have l2: "length (trimStart b) \<le> length b"
    by (simp add: trimStart_def length_dropWhile_le)
  have "length (trimStart b) = length b" using assms l1 l2 by (simp add: trim_def)
  moreover have "length (takeWhile isWhiteSpace b) + length (dropWhile isWhiteSpace b) = length b"
    by (metis length_append takeWhile_dropWhile_id)
  ultimately have "takeWhile isWhiteSpace b = []" by (simp add: trimStart_def)
  then show s: "trimStart b = b"
    unfolding trimStart_def by (metis append_Nil takeWhile_dropWhile_id)
  then show "trimEnd b = b" using assms by (simp add: trim_def)
qed

lemma tight_join:
  assumes "conversationData = first # middle @ [final]"
    and "\<not> (toBoolean (url options) \<and> isValidUrl env (url options))"
    and "\<forall>b \<in> set (map (block env) conversationData). trim b = b"
  shows "toText env conversationData options = join ''\<newline>\<newline>'' (map (block env) conversationData)"
proof -
  have f: "trimStart (block env first) = block env first"
    using assms(1,3) by (intro trim_fixed) simp
  have l: "trimEnd (block env final) = block env final"
    using assms(1,3) by (intro trim_fixed) simp
  have "join ''\<newline>\<newline>'' (map (block env) conversationData)
      = block env first @ ''\<newline>\<newline>'' @ concat (map (\<lambda>m. block env m @ ''\<newline>\<newline>'') middle)
        @ block env final"
    unfolding assms(1)
    using join_middle[of "''\<newline>\<newline>''" "block env first" "map (block env) middle" "block env final"]
    by (simp add: comp_def)
  then show ?thesis
    using toText_separators[OF assms(1), of env options] assms(2) f l by simp
qed

lemma trimEnd_last: "trimEnd s \<noteq> [] \<Longrightarrow> \<not> isWhiteSpace (last (trimEnd s))"
proof -
  assume ne: "trimEnd s \<noteq> []"
  then have d: "dropWhile isWhiteSpace (rev s) \<noteq> []" by (simp add: trimEnd_def)
  have "last (trimEnd s) = hd (dropWhile isWhiteSpace (rev s))"
    using d by (simp add: trimEnd_def last_rev)
  then show ?thesis using d hd_dropWhile[of isWhiteSpace "rev s"] by simp
qed

lemma trim_no_separator: "\<not> endsWith (trim s) ''\<newline>\<newline>''"
proof
  assume "endsWith (trim s) ''\<newline>\<newline>''"
  then obtain p where p: "trim s = p @ ''\<newline>\<newline>''" by (auto simp: endsWith_def suffix_def)
  then have "trimEnd (trimStart s) \<noteq> []" "last (trimEnd (trimStart s)) = CHR ''\<newline>''"
    by (simp_all add: trim_def)
  then show False using trimEnd_last[of "trimStart s"] by (simp add: isWhiteSpace_def)
qed

lemma toText_no_separator: "\<not> endsWith (toText env conversationData options) ''\<newline>\<newline>''"
  unfolding toText_join by (rule trim_no_separator)

text \<open>
  C3, as the code has it. Between the rendered blocks of two consecutive messages the
  assembler puts exactly the separator of two newlines, and none after the last block;
  the final trim takes white space off the front of the first block and off the end of
  the last and leaves every separator in place, and the document never ends with a
  separator. A block keeps the newlines of its own end and start. So where no block
  begins or ends with white space and there is no preamble, the document has exactly
  one blank line between consecutive blocks.
\<close>

theorem separator_between_blocks:
  "(conversationData = first # middle @ [final] \<longrightarrow>
      toText env conversationData options =
        trimStart ((if toBoolean (url options) \<and> isValidUrl env (url options)
                    then ''chat url: '' @ toStr (url options) @ ''\<newline>\<newline>'' else [])
                   @ block env first)
        @ ''\<newline>\<newline>'' @ concat (map (\<lambda>m. block env m @ ''\<newline>\<newline>'') middle)
        @ trimEnd (block env final))
   \<and> (conversationData = first # middle @ [final]
        \<and> \<not> (toBoolean (url options) \<and> isValidUrl env (url options))
        \<and> (\<forall>b \<in> set (map (block env) conversationData). trim b = b) \<longrightarrow>
        oneBlankLineBetween (map (block env) conversationData)
          (toText env conversationData options))
   \<and> \<not> endsWith (toText env conversationData options) ''\<newline>\<newline>''"
proof (intro conjI impI)
  show "\<not> endsWith (toText env conversationData options) ''\<newline>\<newline>''"
    by (rule toText_no_separator)
next
  assume "conversationData = first # middle @ [final]"
  then show "toText env conversationData options =
        trimStart ((if toBoolean (url options) \<and> isValidUrl env (url options)
                    then ''chat url: '' @ toStr (url options) @ ''\<newline>\<newline>'' else [])
                   @ block env first)
        @ ''\<newline>\<newline>'' @ concat (map (\<lambda>m. block env m @ ''\<newline>\<newline>'') middle)
        @ trimEnd (block env final)"
    using toText_separators[of conversationData first middle final env options]
    by (simp add: preamble_def)
next
  assume a: "conversationData = first # middle @ [final]
        \<and> \<not> (toBoolean (url options) \<and> isValidUrl env (url options))
        \<and> (\<forall>b \<in> set (map (block env) conversationData). trim b = b)"
  then have t: "toText env conversationData options
      = join ''\<newline>\<newline>'' (map (block env) conversationData)"
    by (intro tight_join) blast+
  let ?bs = "map (block env) conversationData"
  have ne: "?bs \<noteq> []" using a by simp
  have "map (\<lambda>b. linesOf (trim b)) ?bs = map linesOf ?bs"
    using a by (intro map_cong refl) auto
  moreover have "linesOf (join ''\<newline>\<newline>'' ?bs) = join [[]] (map linesOf ?bs)"
    unfolding linesOf_def[abs_def] by (rule split_join2[OF ne])
  ultimately show "oneBlankLineBetween ?bs (toText env conversationData options)"
    unfolding oneBlankLineBetween_def t by (simp only:)
qed

lemma worker_blocks:
  "map (block exampleWorker) [hiMessage, helloMessage] = [''User:\<newline>Hi'', ''Assistant:\<newline>Hello'']"
  by code_simp

lemma worker_blocks_tight:
  "\<forall>b \<in> set (map (block exampleWorker) [hiMessage, helloMessage]). trim b = b"
  unfolding worker_blocks by code_simp

lemma noOptions_no_url: "\<not> (toBoolean (url noOptions) \<and> isValidUrl env (url noOptions))"
  by (simp add: noOptions_def)

theorem separator_between_blocks_witness:
  "toText exampleWorker [hiMessage, helloMessage] noOptions =
     trimStart (block exampleWorker hiMessage) @ ''\<newline>\<newline>'' @ trimEnd (block exampleWorker helloMessage)
   \<and> oneBlankLineBetween (map (block exampleWorker) [hiMessage, helloMessage])
       (toText exampleWorker [hiMessage, helloMessage] noOptions)"
proof
  note t = separator_between_blocks[of "[hiMessage, helloMessage]" hiMessage "[]" helloMessage
      exampleWorker noOptions]
  show "toText exampleWorker [hiMessage, helloMessage] noOptions =
     trimStart (block exampleWorker hiMessage) @ ''\<newline>\<newline>'' @ trimEnd (block exampleWorker helloMessage)"
    using t by (simp add: noOptions_def)
  have "[hiMessage, helloMessage] = hiMessage # [] @ [helloMessage]" by simp
  then show "oneBlankLineBetween (map (block exampleWorker) [hiMessage, helloMessage])
       (toText exampleWorker [hiMessage, helloMessage] noOptions)"
    using t worker_blocks_tight noOptions_no_url[of exampleWorker] by blast
qed

text \<open>
  C3 as it is written fails with a DOM: the two messages \<open><p>Hi</p>\<close> and
  \<open><p>Hello</p>\<close> give a document with two blank lines between \<open>Hi\<close> and
  \<open>Assistant:\<close>, since the block of the first message ends with the newline that the
  block pass puts behind the text of the \<open>p\<close>.
\<close>

theorem two_blank_lines_counterexample:
  "toText examplePage [hiMessage, helloMessage] noOptions
     = ''User:\<newline>\<newline>Hi\<newline>\<newline>\<newline>Assistant:\<newline>\<newline>Hello''
   \<and> map (block examplePage) [hiMessage, helloMessage]
       = [''User:\<newline>\<newline>Hi\<newline>'', ''Assistant:\<newline>\<newline>Hello\<newline>'']
   \<and> linesOf (toText examplePage [hiMessage, helloMessage] noOptions)
       = [''User:'', [], ''Hi'', [], [], ''Assistant:'', [], ''Hello'']
   \<and> \<not> oneBlankLineBetween (map (block examplePage) [hiMessage, helloMessage])
         (toText examplePage [hiMessage, helloMessage] noOptions)"
  by code_simp

section \<open>The single-message example\<close>

lemma role_user: "getRoleDisplay env ''user'' = ''User''"
  by (simp add: getRoleDisplay_def roleMap_def)

lemma sanitize_hi:
  "sanitizeDocument (htmlDocument [] [Element ''p'' [] [Text ''Hi'']])
     = Some (htmlDocument [] [Element ''p'' [] [Text ''Hi'']])"
  by code_simp

lemma flatten_p_Hi:
  "textContent (processBlockElementsForText (processListsForText
     (processCodeBlocksForText (processTablesForText
       (Element ''div'' [] [Element ''p'' [] [Text ''Hi'']]))))) = ''\<newline>Hi\<newline>''"
  by code_simp

lemma strip_p_Hi: "stripHtmlTags ''<p>Hi</p>'' = ''Hi''"
  by code_simp

lemma block_hiMessage:
  assumes "hasDocument env \<longrightarrow>
             parseFromString env ''<p>Hi</p>'' = Some (htmlDocument [] [Element ''p'' [] [Text ''Hi'']])"
  shows "block env hiMessage = (if hasDocument env then ''User:\<newline>\<newline>Hi\<newline>'' else ''User:\<newline>Hi'')"
proof (cases "hasDocument env")
  case True
  have ne: "''<p>Hi</p>'' \<noteq> []" by simp
  have "htmlToText env ''<p>Hi</p>'' = ''\<newline>Hi\<newline>''"
    using htmlToText_dom[OF True ne _ sanitize_hi body_htmlDocument] assms True flatten_p_Hi
    by simp
  then show ?thesis using True by (simp add: block_def hiMessage_def role_user)
next
  case False
  then show ?thesis
    using htmlToText_worker[OF False, of "''<p>Hi</p>''"] strip_p_Hi
    by (simp add: block_def hiMessage_def role_user)
qed

lemma trim_dom: "trim (''chat url: https://chatgpt.com/c/1\<newline>\<newline>'' @ ''User:\<newline>\<newline>Hi\<newline>'')
   = ''chat url: https://chatgpt.com/c/1\<newline>\<newline>User:\<newline>\<newline>Hi''"
  by code_simp

lemma trim_worker: "trim (''chat url: https://chatgpt.com/c/1\<newline>\<newline>'' @ ''User:\<newline>Hi'')
   = ''chat url: https://chatgpt.com/c/1\<newline>\<newline>User:\<newline>Hi''"
  by code_simp

text \<open>
  C2, as the code has it. With the single message \<open>{role: 'user', content:
  '<p>Hi</p>'}\<close> and the URL \<open>https://chatgpt.com/c/1\<close> the assembler returns the
  preamble line, a blank line, the header line \<open>User:\<close> and then: with a DOM, an
  empty line and \<open>Hi\<close> (the block pass wraps the text of the \<open>p\<close> in newlines); without
  a \<open>document\<close>, \<open>Hi\<close> on the next line.
\<close>

theorem single_message_document:
  "newURL env ''https://chatgpt.com/c/1''
     = Some \<lparr> protocol = ''https:'', hostname = ''chatgpt.com'' \<rparr>
   \<and> (hasDocument env \<longrightarrow>
        parseFromString env ''<p>Hi</p>'' = Some (htmlDocument [] [Element ''p'' [] [Text ''Hi'']]))
   \<longrightarrow>
   processConversation env [\<lparr> role = ''user'', content = ''<p>Hi</p>'' \<rparr>] (Str ''text'')
       (options \<lparr> url := Str ''https://chatgpt.com/c/1'' \<rparr>)
     = (if hasDocument env
        then ''chat url: https://chatgpt.com/c/1\<newline>\<newline>User:\<newline>\<newline>Hi''
        else ''chat url: https://chatgpt.com/c/1\<newline>\<newline>User:\<newline>Hi'')"
proof
  assume a: "newURL env ''https://chatgpt.com/c/1''
     = Some \<lparr> protocol = ''https:'', hostname = ''chatgpt.com'' \<rparr>
   \<and> (hasDocument env \<longrightarrow>
        parseFromString env ''<p>Hi</p>'' = Some (htmlDocument [] [Element ''p'' [] [Text ''Hi'']]))"
  have v: "isValidUrl env (Str ''https://chatgpt.com/c/1'')"
    using a chatgpt_allowed by (simp add: isValidUrl_Str)
  have ne: "''https://chatgpt.com/c/1'' \<noteq> []" by simp
  have m: "\<lparr> role = ''user'', content = ''<p>Hi</p>'' \<rparr> = hiMessage" by (simp add: hiMessage_def)
  have b: "block env hiMessage
      = (if hasDocument env then ''User:\<newline>\<newline>Hi\<newline>'' else ''User:\<newline>Hi'')"
    using a by (intro block_hiMessage) blast
  show "processConversation env [\<lparr> role = ''user'', content = ''<p>Hi</p>'' \<rparr>] (Str ''text'')
       (options \<lparr> url := Str ''https://chatgpt.com/c/1'' \<rparr>)
     = (if hasDocument env
        then ''chat url: https://chatgpt.com/c/1\<newline>\<newline>User:\<newline>\<newline>Hi''
        else ''chat url: https://chatgpt.com/c/1\<newline>\<newline>User:\<newline>Hi'')"
    unfolding m processConversation_preamble[OF ne v]
    using b trim_dom trim_worker by (cases "hasDocument env") simp_all
qed

lemma parse_hi:
  "parseFromString examplePage ''<p>Hi</p>'' = Some (htmlDocument [] [Element ''p'' [] [Text ''Hi'']])"
  by code_simp

lemma example_contexts: "hasDocument examplePage" "\<not> hasDocument exampleWorker"
  "newURL exampleWorker = newURL examplePage"
  by (simp_all add: examplePage_def exampleWorker_def)

theorem single_message_document_witness:
  "processConversation examplePage [\<lparr> role = ''user'', content = ''<p>Hi</p>'' \<rparr>] (Str ''text'')
       (noOptions \<lparr> url := Str ''https://chatgpt.com/c/1'' \<rparr>)
     = ''chat url: https://chatgpt.com/c/1\<newline>\<newline>User:\<newline>\<newline>Hi''
   \<and> processConversation exampleWorker [\<lparr> role = ''user'', content = ''<p>Hi</p>'' \<rparr>] (Str ''text'')
       (noOptions \<lparr> url := Str ''https://chatgpt.com/c/1'' \<rparr>)
     = ''chat url: https://chatgpt.com/c/1\<newline>\<newline>User:\<newline>Hi''"
  using single_message_document[of examplePage noOptions]
    single_message_document[of exampleWorker noOptions]
    parse_hi exampleURL_values(2) example_contexts
  by simp

text \<open>
  C2 as it is written fails with a DOM: the document does not go on with \<open>User:\<close>,
  one newline and \<open>Hi\<close> behind the preamble; there are two newlines between
  \<open>User:\<close> and \<open>Hi\<close>.
\<close>

theorem single_message_counterexample:
  "processConversation examplePage [\<lparr> role = ''user'', content = ''<p>Hi</p>'' \<rparr>] (Str ''text'')
       (noOptions \<lparr> url := Str ''https://chatgpt.com/c/1'' \<rparr>)
     = ''chat url: https://chatgpt.com/c/1\<newline>\<newline>User:\<newline>\<newline>Hi''
   \<and> \<not> startsWith
         (processConversation examplePage [\<lparr> role = ''user'', content = ''<p>Hi</p>'' \<rparr>]
            (Str ''text'') (noOptions \<lparr> url := Str ''https://chatgpt.com/c/1'' \<rparr>))
         (''chat url: https://chatgpt.com/c/1\<newline>\<newline>'' @ ''User:\<newline>Hi'')"
  by code_simp

section \<open>The Markdown table\<close>

lemma replaceFrom_char:
  "replaceFrom (reLiteral [c]) rep 0 s = concat (map (\<lambda>x. if x = c then rep else [x]) s)"
  by (induction s) (auto simp: reLiteral_def)

lemma replaceAll_pipe:
  "replaceAll (reLiteral ''|'') [CHR 0x5C, CHR ''|''] s = escapePipes s"
  by (simp add: replaceAll_def replaceFrom_char escapePipes_def)

lemma map_const_replicate: "map (\<lambda>x. c) xs = replicate (length xs) c"
  by (induction xs) auto

lemma tableRows_acc:
  "tableRows env (htmlToText env) rowIndex rows markdown
     = markdown @ tableRows env (htmlToText env) rowIndex rows []"
proof (induction rows arbitrary: rowIndex markdown)
  case Nil show ?case by simp
next
  case (Cons row rows)
  show ?case
    unfolding tableRows.simps Let_def
    by (subst Cons.IH, subst (2) Cons.IH) simp
qed

lemma tableRows_later:
  "tableRows env (htmlToText env) (Suc rowIndex) rows [] = concat (map (rowLine env) rows)"
proof (induction rows arbitrary: rowIndex)
  case Nil show ?case by simp
next
  case (Cons row rows)
  have "tableRows env (htmlToText env) (Suc rowIndex) (row # rows) []
      = tableRows env (htmlToText env) (Suc (Suc rowIndex)) rows (rowLine env row)"
    by (simp add: Let_def rowLine_def cellText_def[abs_def] replaceAll_pipe)
  also have "\<dots> = rowLine env row @ tableRows env (htmlToText env) (Suc (Suc rowIndex)) rows []"
    by (rule tableRows_acc)
  finally show ?case using Cons.IH by simp
qed

lemma tableRows_first:
  "tableRows env (htmlToText env) 0 (row # rows) markdown
     = markdown @ rowLine env row
       @ (if querySelectorAll [''td'', ''th''] row = [] then [] else separatorLine row)
       @ concat (map (rowLine env) rows)"
proof -
  have "tableRows env (htmlToText env) 0 (row # rows) markdown
      = tableRows env (htmlToText env) (Suc 0) rows
          (markdown @ rowLine env row
           @ (if querySelectorAll [''td'', ''th''] row = [] then [] else separatorLine row))"
    by (simp add: Let_def rowLine_def cellText_def[abs_def] replaceAll_pipe separatorLine_def
        map_const_replicate)
  also have "\<dots> = (markdown @ rowLine env row
           @ (if querySelectorAll [''td'', ''th''] row = [] then [] else separatorLine row))
        @ tableRows env (htmlToText env) (Suc 0) rows []"
    by (rule tableRows_acc)
  finally show ?thesis by (simp add: tableRows_later)
qed

lemma tableToMarkdown_rows:
  "querySelectorAll [''tr''] tableElement = row # rows \<Longrightarrow>
   tableToMarkdown env tableElement
     = ''\<newline>'' @ rowLine env row
       @ (if querySelectorAll [''td'', ''th''] row = [] then [] else separatorLine row)
       @ concat (map (rowLine env) rows) @ ''\<newline>''"
  by (simp add: tableToMarkdown_def tableRows_first del: tableRows.simps)

lemma sanitize_text_only:
  "sanitizeDocument (htmlDocument [] [Text s]) = Some (htmlDocument [] [Text s])"
  by (simp add: sanitizeDocument_def htmlDocument_def removeAll_def sanitizeAttributes_def
      removeEventAttributes_def namedProperty_def urlAttrs_def removeDangerous_def
      getAttribute_def)

lemma flatten_text_only:
  "textContent (processBlockElementsForText (processListsForText
     (processCodeBlocksForText (processTablesForText (Element ''div'' [] [Text s]))))) = s"
  by (simp add: processBlockElementsForText_def processListsForText_def
      processCodeBlocksForText_def processTablesForText_def replaceWithin_def
      addSpacingBetweenSiblings_def)

lemma strip_A_1: "stripHtmlTags ''A'' = ''A''" "stripHtmlTags ''1'' = ''1''"
  by code_simp+

lemma htmlToText_text_only:
  assumes "s \<noteq> []" and "stripHtmlTags s = s"
    and "hasDocument env \<longrightarrow> parseFromString env s = Some (htmlDocument [] [Text s])"
  shows "htmlToText env s = s"
proof (cases "hasDocument env")
  case True
  show ?thesis
    using htmlToText_dom[OF True assms(1) _ sanitize_text_only body_htmlDocument] assms(3) True
      flatten_text_only by simp
next
  case False
  then show ?thesis using htmlToText_worker[OF False] assms(2) by simp
qed

lemma exampleTable_rows:
  "querySelectorAll [''tr''] exampleTable
     = [Element ''tr'' [] [Element ''th'' [] [Text ''A'']],
        Element ''tr'' [] [Element ''td'' [] [Text ''1'']]]"
  "querySelectorAll [''td'', ''th''] (Element ''tr'' [] [Element ''th'' [] [Text ''A'']])
     = [Element ''th'' [] [Text ''A'']]"
  "querySelectorAll [''td'', ''th''] (Element ''tr'' [] [Element ''td'' [] [Text ''1'']])
     = [Element ''td'' [] [Text ''1'']]"
  by (simp_all add: exampleTable_def)

lemma example_cells:
  "trim (escapePipes ''A'') = ''A''" "trim (escapePipes ''1'') = ''1''"
  by code_simp+

text \<open>
  C5, as the code has it. A table without rows renders to the empty string. Otherwise
  the output is a newline, the first row, the separator row right after it when the
  first row has at least one cell, the other rows, and a newline: so the example table
  renders to a newline, the three rows and a blank line. A row is its cell texts
  between pipes; a cell text is the inner HTML of the cell flattened by \<open>htmlToText\<close>,
  every \<open>|\<close> escaped, trimmed.
\<close>

theorem table_markdown:
  "(querySelectorAll [''tr''] tableElement = [] \<longrightarrow> tableToMarkdown env tableElement = [])
   \<and> (querySelectorAll [''tr''] tableElement = row # rows \<longrightarrow>
        tableToMarkdown env tableElement
          = ''\<newline>'' @ rowLine env row
            @ (if querySelectorAll [''td'', ''th''] row = [] then [] else separatorLine row)
            @ concat (map (rowLine env) rows) @ ''\<newline>'')
   \<and> (innerHTML env (Element ''th'' [] [Text ''A'']) = ''A''
        \<and> innerHTML env (Element ''td'' [] [Text ''1'']) = ''1''
        \<and> (hasDocument env \<longrightarrow>
             parseFromString env ''A'' = Some (htmlDocument [] [Text ''A''])
             \<and> parseFromString env ''1'' = Some (htmlDocument [] [Text ''1''])) \<longrightarrow>
        tableToMarkdown env exampleTable = ''\<newline>| A |\<newline>| --- |\<newline>| 1 |\<newline>\<newline>'')"
proof (intro conjI impI)
  assume "querySelectorAll [''tr''] tableElement = []"
  then show "tableToMarkdown env tableElement = []" by (simp add: tableToMarkdown_def)
next
  assume "querySelectorAll [''tr''] tableElement = row # rows"
  then show "tableToMarkdown env tableElement
          = ''\<newline>'' @ rowLine env row
            @ (if querySelectorAll [''td'', ''th''] row = [] then [] else separatorLine row)
            @ concat (map (rowLine env) rows) @ ''\<newline>''"
    by (rule tableToMarkdown_rows)
next
  assume a: "innerHTML env (Element ''th'' [] [Text ''A'']) = ''A''
        \<and> innerHTML env (Element ''td'' [] [Text ''1'']) = ''1''
        \<and> (hasDocument env \<longrightarrow>
             parseFromString env ''A'' = Some (htmlDocument [] [Text ''A''])
             \<and> parseFromString env ''1'' = Some (htmlDocument [] [Text ''1'']))"
  have A: "htmlToText env ''A'' = ''A''"
    using a strip_A_1 by (intro htmlToText_text_only) simp_all
  have B: "htmlToText env ''1'' = ''1''"
    using a strip_A_1 by (intro htmlToText_text_only) simp_all
  show "tableToMarkdown env exampleTable = ''\<newline>| A |\<newline>| --- |\<newline>| 1 |\<newline>\<newline>''"
    unfolding tableToMarkdown_rows[OF exampleTable_rows(1)]
    using a A B example_cells
    by (simp add: rowLine_def separatorLine_def cellText_def exampleTable_rows)
qed

lemma examplePage_table:
  "innerHTML examplePage (Element ''th'' [] [Text ''A'']) = ''A''"
  "innerHTML examplePage (Element ''td'' [] [Text ''1'']) = ''1''"
  "parseFromString examplePage ''A'' = Some (htmlDocument [] [Text ''A''])"
  "parseFromString examplePage ''1'' = Some (htmlDocument [] [Text ''1''])"
  "querySelectorAll [''tr''] (Element ''table'' [] []) = []"
  by code_simp+

theorem table_markdown_witness:
  "tableToMarkdown examplePage (Element ''table'' [] []) = []
   \<and> tableToMarkdown examplePage exampleTable
       = ''\<newline>'' @ rowLine examplePage (Element ''tr'' [] [Element ''th'' [] [Text ''A'']])
         @ separatorLine (Element ''tr'' [] [Element ''th'' [] [Text ''A'']])
         @ rowLine examplePage (Element ''tr'' [] [Element ''td'' [] [Text ''1'']]) @ ''\<newline>''
   \<and> tableToMarkdown examplePage exampleTable = ''\<newline>| A |\<newline>| --- |\<newline>| 1 |\<newline>\<newline>''"
  using table_markdown[where tableElement = "Element ''table'' [] []" and env = examplePage]
    table_markdown[where tableElement = exampleTable and env = examplePage
      and row = "Element ''tr'' [] [Element ''th'' [] [Text ''A'']]"
      and rows = "[Element ''tr'' [] [Element ''td'' [] [Text ''1'']]]"]
    examplePage_table exampleTable_rows
  by simp

text \<open>
  C5 as it is written fails on the example table: the output of \<open>tableToMarkdown\<close>,
  and that of \<open>htmlToMarkdown\<close> on the fragment, begins with a newline, so it is not
  the three rows followed by blank lines only.
\<close>

theorem table_markdown_counterexample:
  "tableToMarkdown examplePage exampleTable = ''\<newline>| A |\<newline>| --- |\<newline>| 1 |\<newline>\<newline>''
   \<and> htmlToMarkdown examplePage tableFragment = ''\<newline>| A |\<newline>| --- |\<newline>| 1 |\<newline>\<newline>''
   \<and> \<not> startsWith (tableToMarkdown examplePage exampleTable) ''| A |\<newline>| --- |\<newline>| 1 |\<newline>''
   \<and> \<not> startsWith (htmlToMarkdown examplePage tableFragment) ''| A |\<newline>| --- |\<newline>| 1 |\<newline>''"
  by code_simp

section \<open>The list pass\<close>

lemma itemLines_Cons:
  "itemLines get isOrdered index (item # items) =
     (case get item of
        None \<Rightarrow> []
      | Some tc \<Rightarrow> [itemPrefix isOrdered index @ trim tc])
     @ itemLines get isOrdered (Suc index) items"
  by (simp add: itemLines_def List.map_filter_simps split: option.splits)

lemma listItems_lines:
  "listItems get isOrdered index items acc = acc @ asLines (itemLines get isOrdered index items)"
proof (induction items arbitrary: index acc)
  case Nil show ?case by (simp add: itemLines_def asLines_def List.map_filter_simps)
next
  case (Cons item items)
  show ?case
    by (simp add: Cons.IH itemLines_Cons asLines_def itemPrefix_def split: option.splits)
qed

lemma listToText_lines:
  "listToText get list =
     asLines ([[]] @ itemLines get (toLowerCase (tagName list) = ''ol'') 0
                       (querySelectorAll [''li''] list) @ [[]])"
  by (simp add: listToText_def listItems_lines asLines_def)

lemma itemLines_all:
  "(\<And>item. item \<in> set items \<Longrightarrow> get item = Some (tc item)) \<Longrightarrow>
   itemLines get isOrdered index items =
     map (\<lambda>(i, item). itemPrefix isOrdered i @ trim (tc item)) (enumerate index items)"
proof (induction items arbitrary: index)
  case Nil show ?case by (simp add: itemLines_def List.map_filter_simps)
next
  case (Cons item items)
  then show ?case by (simp add: itemLines_Cons)
qed

lemma split_no_sep: "c \<notin> set l \<Longrightarrow> split c l = [l]"
  by (induction l) auto

lemma split_asLines:
  "(\<And>l. l \<in> set ls \<Longrightarrow> CHR ''\<newline>'' \<notin> set l) \<Longrightarrow>
   split CHR ''\<newline>'' (asLines ls) = ls @ [[]]"
proof (induction ls)
  case Nil show ?case by (simp add: asLines_def)
next
  case (Cons l ls)
  have "asLines (l # ls) = l @ CHR ''\<newline>'' # asLines ls" by (simp add: asLines_def)
  then have "split CHR ''\<newline>'' (asLines (l # ls)) = split CHR ''\<newline>'' l @ split CHR ''\<newline>'' (asLines ls)"
    by (simp only: split_append)
  then show ?case using Cons split_no_sep[of "CHR ''\<newline>''" l] by simp
qed

text \<open>After the pass no list is left below the element.\<close>

lemma replaceEach_no_match:
  "(\<And>n. \<not> isElement (f n)) \<Longrightarrow>
   \<not> hasTag ts (replaceEach (hasTag ts) f n) \<and> querySelectorAll ts (replaceEach (hasTag ts) f n) = []"
proof (induction n)
  case (Element t a cs)
  show ?case
  proof (cases "hasTag ts (Element t a cs)")
    case True
    then show ?thesis using Element.prems[of "Element t a cs"] by (cases "f (Element t a cs)") auto
  next
    case False
    then show ?thesis using Element by auto
  qed
next
  case (Template a fragment)
  show ?case
    using Template.prems[of "Template a fragment"] by (cases "f (Template a fragment)") auto
qed simp_all

lemma replaceWithin_no_match:
  "(\<And>n. \<not> isElement (f n)) \<Longrightarrow> querySelectorAll ts (replaceWithin (hasTag ts) f element) = []"
  using replaceEach_no_match[of f ts]
  by (cases element) (auto simp: replaceWithin_def)

lemma processListsForText_no_lists:
  "querySelectorAll [''ul'', ''ol''] (processListsForText element) = []"
  unfolding processListsForText_def by (rule replaceWithin_no_match) simp

lemma listAt_replaced:
  "listAt path cs = Some list \<Longrightarrow>
   nodeAt path (Element t a (map (replaceEach (hasTag [''ul'', ''ol'']) f) cs)) = Some (f list)"
proof (induction path arbitrary: cs t a)
  case Nil then show ?case by simp
next
  case (Cons i path)
  then have i: "i < length cs" by (auto split: if_splits)
  show ?case
  proof (cases "hasTag [''ul'', ''ol''] (cs ! i)")
    case True
    then have "path = []" "list = cs ! i" using Cons.prems i by (auto split: if_splits)
    then show ?thesis using True i by (cases "cs ! i") auto
  next
    case False
    then obtain t' a' cs' where c: "cs ! i = Element t' a' cs'"
      using Cons.prems i by (cases "cs ! i"; cases path) auto
    have "listAt path cs' = Some list" using Cons.prems i False c by simp
    from Cons.IH[OF this, of t' a'] show ?thesis using i c False by simp
  qed
qed

lemma processListsForText_block:
  "listAt path (childNodes element) = Some list \<Longrightarrow>
   nodeAt path (processListsForText element)
     = Some (Text (listToText (\<lambda>item. Some (textContent item)) list))"
proof (cases element)
  case (Element t a cs)
  assume "listAt path (childNodes element) = Some list"
  then show ?thesis
    unfolding processListsForText_def replaceWithin_def Element
    using listAt_replaced[of path cs list t a] by simp
next
  case (Text s)
  assume "listAt path (childNodes element) = Some list"
  then show ?thesis using Text by (cases path) auto
next
  case (Comment s)
  assume "listAt path (childNodes element) = Some list"
  then show ?thesis using Comment by (cases path) auto
next
  case (Template a fragment)
  assume "listAt path (childNodes element) = Some list"
  then show ?thesis using Template by (cases path) auto
qed

lemma itemLines_append:
  "itemLines get isOrdered index (xs @ ys) =
     itemLines get isOrdered index xs @ itemLines get isOrdered (index + length xs) ys"
proof (induction xs arbitrary: index)
  case Nil show ?case by (simp add: itemLines_def List.map_filter_simps)
next
  case (Cons x xs)
  have "itemLines get isOrdered index ((x # xs) @ ys)
      = (case get x of None \<Rightarrow> [] | Some tc \<Rightarrow> [itemPrefix isOrdered index @ trim tc])
        @ itemLines get isOrdered (Suc index) (xs @ ys)"
    by (simp only: append_Cons itemLines_Cons)
  then show ?case by (simp only: Cons.IH itemLines_Cons append_assoc length_Cons add_Suc add_Suc_right)
qed

lemma itemLines_skip:
  "get bad = None \<Longrightarrow>
   itemLines get isOrdered 0 (before @ bad # after) =
     itemLines get isOrdered 0 before @ itemLines get isOrdered (Suc (length before)) after"
  by (simp add: itemLines_append itemLines_Cons)

lemma sanitize_listDocument: "sanitizeDocument listDocument = Some listDocument"
  by code_simp

lemma listDocument_body:
  "body listDocument = Some (Element ''body'' []
     [Element ''ul'' [] [Element ''li'' [] [Text ''a''], Element ''li'' [] [Text ''b'']]])"
  by (simp add: listDocument_def body_htmlDocument)

lemma flatten_list:
  "textContent (processBlockElementsForText (processListsForText
     (processCodeBlocksForText (processTablesForText
       (Element ''div'' []
          [Element ''ul'' [] [Element ''li'' [] [Text ''a''], Element ''li'' [] [Text ''b'']]])))))
   = asLines [[], [bullet, CHR '' '', CHR ''a''], [bullet, CHR '' '', CHR ''b''], []]"
  by code_simp

lemma listFragment_text:
  assumes "hasDocument env" and "parseFromString env listFragment = Some listDocument"
  shows "htmlToText env listFragment
     = asLines [[], [bullet, CHR '' '', CHR ''a''], [bullet, CHR '' '', CHR ''b''], []]"
proof -
  have ne: "listFragment \<noteq> []" by (simp add: listFragment_def)
  show ?thesis
    using htmlToText_dom[OF assms(1) ne assms(2) sanitize_listDocument listDocument_body]
      flatten_list by simp
qed

lemma list_example_lines:
  "linesOf (asLines [[], [bullet, CHR '' '', CHR ''a''], [bullet, CHR '' '', CHR ''b''], []])
     = [[], [bullet, CHR '' '', CHR ''a''], [bullet, CHR '' '', CHR ''b''], [], []]"
  "CHR ''<'' \<notin> set (asLines [[], [bullet, CHR '' '', CHR ''a''], [bullet, CHR '' '', CHR ''b''], []])"
  "CHR ''>'' \<notin> set (asLines [[], [bullet, CHR '' '', CHR ''a''], [bullet, CHR '' '', CHR ''b''], []])"
  by code_simp+

text \<open>
  C6, as the code has it. After the list pass no \<open>ul\<close> and no \<open>ol\<close> is left below the
  element. Where a list stood outside any other list stands the text of its block; a
  list inside another list gets no block of its own. The block is a newline, then for
  each \<open>li\<close> below the list, those of the lists inside it included, the prefix, the
  trimmed text of the item and a newline, then a newline. The prefix of the item at
  \<open>index\<close> is \<open>index + 1\<close>, a dot and a space when the list that is replaced is an
  \<open>ol\<close>, and the bullet and a space otherwise. An item whose text cannot be read adds
  nothing, and the items before and after it keep their lines and their numbers. When
  no trimmed item text has a line break in it, the lines of the block are an empty
  line, one line for each item, and an empty line. With a DOM,
  \<open><ul><li>a</li><li>b</li></ul>\<close> flattens to the lines of the two bulleted items,
  with no angle bracket left.
\<close>

theorem list_pass:
  "querySelectorAll [''ul'', ''ol''] (processListsForText element) = []
   \<and> (listAt path (childNodes element) = Some list \<longrightarrow>
        nodeAt path (processListsForText element)
          = Some (Text (listToText (\<lambda>item. Some (textContent item)) list)))
   \<and> listToText get list =
        asLines ([[]] @ itemLines get (toLowerCase (tagName list) = ''ol'') 0
                          (querySelectorAll [''li''] list) @ [[]])
   \<and> itemLines (\<lambda>item. Some (textContent item)) isOrdered 0 items =
        map (\<lambda>(index, item).
               (if isOrdered then showNat (index + 1) @ ''. '' else [bullet, CHR '' ''])
               @ trim (textContent item))
          (enumerate 0 items)
   \<and> (get bad = None \<longrightarrow>
        itemLines get isOrdered 0 (before @ bad # after) =
          itemLines get isOrdered 0 before @ itemLines get isOrdered (Suc (length before)) after)
   \<and> ((\<forall>l \<in> set (itemLines get isOrdered 0 items). CHR ''\<newline>'' \<notin> set l) \<longrightarrow>
        linesOf (asLines ([[]] @ itemLines get isOrdered 0 items @ [[]]))
          = [[]] @ itemLines get isOrdered 0 items @ [[], []])
   \<and> (hasDocument env \<and> parseFromString env listFragment = Some listDocument \<longrightarrow>
        htmlToText env listFragment
          = asLines [[], [bullet, CHR '' '', CHR ''a''], [bullet, CHR '' '', CHR ''b''], []]
        \<and> linesOf (htmlToText env listFragment)
          = [[], [bullet, CHR '' '', CHR ''a''], [bullet, CHR '' '', CHR ''b''], [], []]
        \<and> CHR ''<'' \<notin> set (htmlToText env listFragment)
        \<and> CHR ''>'' \<notin> set (htmlToText env listFragment))"
proof (intro conjI impI)
  show "querySelectorAll [''ul'', ''ol''] (processListsForText element) = []"
    by (rule processListsForText_no_lists)
next
  assume "listAt path (childNodes element) = Some list"
  then show "nodeAt path (processListsForText element)
          = Some (Text (listToText (\<lambda>item. Some (textContent item)) list))"
    by (rule processListsForText_block)
next
  show "listToText get list =
        asLines ([[]] @ itemLines get (toLowerCase (tagName list) = ''ol'') 0
                          (querySelectorAll [''li''] list) @ [[]])"
    by (rule listToText_lines)
next
  show "itemLines (\<lambda>item. Some (textContent item)) isOrdered 0 items =
        map (\<lambda>(index, item).
               (if isOrdered then showNat (index + 1) @ ''. '' else [bullet, CHR '' ''])
               @ trim (textContent item))
          (enumerate 0 items)"
    using itemLines_all[of items "\<lambda>item. Some (textContent item)" textContent isOrdered 0]
    by (simp add: itemPrefix_def[abs_def])
next
  assume "get bad = None"
  then show "itemLines get isOrdered 0 (before @ bad # after) =
          itemLines get isOrdered 0 before @ itemLines get isOrdered (Suc (length before)) after"
    by (rule itemLines_skip)
next
  assume "\<forall>l \<in> set (itemLines get isOrdered 0 items). CHR ''\<newline>'' \<notin> set l"
  then have "l \<in> set ([[]] @ itemLines get isOrdered 0 items @ [[]]) \<Longrightarrow> CHR ''\<newline>'' \<notin> set l"
    for l by auto
  then have "split CHR ''\<newline>'' (asLines ([[]] @ itemLines get isOrdered 0 items @ [[]]))
      = ([[]] @ itemLines get isOrdered 0 items @ [[]]) @ [[]]"
    by (rule split_asLines)
  then show "linesOf (asLines ([[]] @ itemLines get isOrdered 0 items @ [[]]))
          = [[]] @ itemLines get isOrdered 0 items @ [[], []]"
    by (simp add: linesOf_def)
next
  assume a: "hasDocument env \<and> parseFromString env listFragment = Some listDocument"
  then have t: "htmlToText env listFragment
      = asLines [[], [bullet, CHR '' '', CHR ''a''], [bullet, CHR '' '', CHR ''b''], []]"
    by (intro listFragment_text) simp_all
  show "htmlToText env listFragment
      = asLines [[], [bullet, CHR '' '', CHR ''a''], [bullet, CHR '' '', CHR ''b''], []]" by (rule t)
  show "linesOf (htmlToText env listFragment)
          = [[], [bullet, CHR '' '', CHR ''a''], [bullet, CHR '' '', CHR ''b''], [], []]"
    unfolding t by (rule list_example_lines)
  show "CHR ''<'' \<notin> set (htmlToText env listFragment)" unfolding t by (rule list_example_lines)
  show "CHR ''>'' \<notin> set (htmlToText env listFragment)" unfolding t by (rule list_example_lines)
qed

lemma list_witness_facts:
  "listAt [0] (childNodes (Element ''div'' [] [orderedList])) = Some orderedList"
  "failingOnY (Element ''li'' [] [Text ''y'']) = None"
  "querySelectorAll [''li''] orderedList
     = [Element ''li'' [] [Text ''x'']] @ Element ''li'' [] [Text ''y'']
       # [Element ''li'' [] [Text ''z'']]"
  "itemLines failingOnY True 0 [Element ''li'' [] [Text ''x'']] = [''1. x'']"
  "itemLines failingOnY True (Suc (length [Element ''li'' [] [Text ''x'']]))
     [Element ''li'' [] [Text ''z'']] = [''3. z'']"
  "\<forall>l \<in> set (itemLines failingOnY True 0 (querySelectorAll [''li''] orderedList)).
     CHR ''\<newline>'' \<notin> set l"
  "hasDocument examplePage"
  "parseFromString examplePage listFragment = Some listDocument"
  "toLowerCase (tagName orderedList) = ''ol''"
  by code_simp+

theorem list_pass_witness:
  "nodeAt [0] (processListsForText (Element ''div'' [] [orderedList]))
     = Some (Text (listToText (\<lambda>item. Some (textContent item)) orderedList))
   \<and> itemLines failingOnY True 0 (querySelectorAll [''li''] orderedList) = [''1. x'', ''3. z'']
   \<and> linesOf (listToText failingOnY orderedList) = [[], ''1. x'', ''3. z'', [], []]
   \<and> linesOf (htmlToText examplePage listFragment)
       = [[], [bullet, CHR '' '', CHR ''a''], [bullet, CHR '' '', CHR ''b''], [], []]
   \<and> CHR ''<'' \<notin> set (htmlToText examplePage listFragment)
   \<and> CHR ''>'' \<notin> set (htmlToText examplePage listFragment)"
proof -
  note t = list_pass[where element = "Element ''div'' [] [orderedList]" and path = "[0]"
      and list = orderedList and get = failingOnY and isOrdered = True
      and bad = "Element ''li'' [] [Text ''y'']" and before = "[Element ''li'' [] [Text ''x'']]"
      and after = "[Element ''li'' [] [Text ''z'']]"
      and items = "querySelectorAll [''li''] orderedList" and env = examplePage]
  have 1: "nodeAt [0] (processListsForText (Element ''div'' [] [orderedList]))
     = Some (Text (listToText (\<lambda>item. Some (textContent item)) orderedList))"
    using t list_witness_facts(1) by blast
  have 2: "itemLines failingOnY True 0 (querySelectorAll [''li''] orderedList) = [''1. x'', ''3. z'']"
    using t list_witness_facts(2) unfolding list_witness_facts(3,4,5) by simp
  have "linesOf (asLines ([[]] @ itemLines failingOnY True 0 (querySelectorAll [''li''] orderedList) @ [[]]))
      = [[]] @ itemLines failingOnY True 0 (querySelectorAll [''li''] orderedList) @ [[], []]"
    using t list_witness_facts(6) by blast
  moreover have "listToText failingOnY orderedList
      = asLines ([[]] @ itemLines failingOnY True 0 (querySelectorAll [''li''] orderedList) @ [[]])"
    using t list_witness_facts(9) by simp
  ultimately have 3: "linesOf (listToText failingOnY orderedList) = [[], ''1. x'', ''3. z'', [], []]"
    unfolding 2 by simp
  have 4: "linesOf (htmlToText examplePage listFragment)
       = [[], [bullet, CHR '' '', CHR ''a''], [bullet, CHR '' '', CHR ''b''], [], []]
   \<and> CHR ''<'' \<notin> set (htmlToText examplePage listFragment)
   \<and> CHR ''>'' \<notin> set (htmlToText examplePage listFragment)"
    using t list_witness_facts(7,8) by blast
  show ?thesis using 1 2 3 4 by blast
qed

text \<open>
  C6 as it is written fails for a list inside a list and for an item that holds code.
  In \<open><ul><li>a<ol><li>b</li></ol></li></ul>\<close> the \<open>ol\<close> is not replaced by a block:
  its item is one more line of the block of the \<open>ul\<close>, with the bullet and not with
  \<open>1.\<close> before it. In \<open><ul><li>use <code>x</code> now</li></ul>\<close> the code pass, which
  runs before the list pass, has put newlines around \<open>x\<close>, and the one item takes three
  lines of the block.
\<close>

theorem list_block_counterexample:
  "childNodes (processListsForText (Element ''div'' []
       [Element ''ul'' []
          [Element ''li'' [] [Text ''a'', Element ''ol'' [] [Element ''li'' [] [Text ''b'']]]]]))
     = [Text (asLines [[], [bullet, CHR '' '', CHR ''a'', CHR ''b''], [bullet, CHR '' '', CHR ''b''], []])]
   \<and> linesOf (htmlToText examplePage nestedListFragment)
       = [[], [bullet, CHR '' '', CHR ''a'', CHR ''b''], [bullet, CHR '' '', CHR ''b''], [], []]
   \<and> \<not> includesStr (htmlToText examplePage nestedListFragment) ''1. b''
   \<and> length (querySelectorAll [''li'']
        (Element ''ul'' []
           [Element ''li'' [] [Text ''use '', Element ''code'' [] [Text ''x''], Text '' now'']])) = 1
   \<and> linesOf (htmlToText examplePage codeItemFragment)
       = [[], [bullet, CHR '' ''] @ ''use '', ''x'', '' now'', [], []]"
  by code_simp

end
